theory Spec2Isabelle
  imports Main "HOL-Library.Word" "HOL-Library.Signed_Division"
begin

section \<open>AgroFlow soil-moisture sensor firmware (src/main.cpp)\<close>

text \<open>
  A shallow embedding of the ESP32 sketch: the pure string and arithmetic helpers first,
  then the device state, the environment the firmware reads from, and the functions of
  the sketch as state transformers that record every effect in a trace.
\<close>

subsection \<open>Arduino \<open>String\<close> helpers\<close>

text \<open>
  \<open>String(value, HEX)\<close> and \<open>String(int)\<close> go through newlib's \<open>utoa\<close>/\<open>itoa\<close>: a
  do-while loop that emits the digits of the value in the given base, least significant
  first, from the table \<open>0123456789abcdefghijklmnopqrstuvwxyz\<close>, and then reverses
  them. Nothing is padded.
\<close>

definition digits36 :: string where
  "digits36 = ''0123456789abcdefghijklmnopqrstuvwxyz''"

function utoa_rev :: "nat \<Rightarrow> nat \<Rightarrow> string" where
  "utoa_rev v base =
     (digits36 ! (v mod base)) #
       (if base < 2 \<or> v div base = 0 then [] else utoa_rev (v div base) base)"
  by pat_completeness auto
termination
proof (relation "measure (\<lambda>(v, base). v)")
  fix v base :: nat
  assume "\<not> (base < 2 \<or> v div base = 0)"
  then have "1 < base" and "0 < v" by (auto intro: Nat.gr0I)
  then have "v div base < v" by (rule div_less_dividend)
  then show "((v div base, base), (v, base)) \<in> measure (\<lambda>(v, base). v)" by simp
qed simp

declare utoa_rev.simps [simp del]

definition utoa :: "nat \<Rightarrow> nat \<Rightarrow> string" where
  "utoa v base = (if base < 2 \<or> 36 < base then [] else rev (utoa_rev v base))"

definition HEX :: nat where
  "HEX = 16"

text \<open>\<open>String(unsigned char value, unsigned char base)\<close>.\<close>

definition String_byte :: "8 word \<Rightarrow> nat \<Rightarrow> string" where
  "String_byte value base = utoa (unat value) base"

text \<open>\<open>String(int value)\<close>: base 10, a minus sign before the digits of a negative value.\<close>

definition String_int :: "int \<Rightarrow> string" where
  "String_int value =
     (if value < 0 then CHR ''-'' # utoa (nat (- value)) 10 else utoa (nat value) 10)"

text \<open>\<open>toupper\<close> of the C locale, and \<open>String::toUpperCase\<close>, which applies it to every
  character of the string.\<close>

definition toupper :: "char \<Rightarrow> char" where
  "toupper c =
     (let n = (of_char c :: nat) in if 97 \<le> n \<and> n \<le> 122 then char_of (n - 32) else c)"

definition toUpperCase :: "string \<Rightarrow> string" where
  "toUpperCase s = map toupper s"

subsection \<open>Device identity (\<open>setup\<close>, lines 272-278)\<close>

text \<open>
  One iteration of the loop over the six bytes of the hardware address: a leading
  \<open>0\<close> for a byte below 16, then the byte in hexadecimal.
\<close>

definition uniqueId_step :: "8 word list \<Rightarrow> string \<Rightarrow> nat \<Rightarrow> string" where
  "uniqueId_step mac uid i =
     (let uid1 = (if mac ! i < 16 then uid @ ''0'' else uid)
      in uid1 @ String_byte (mac ! i) HEX)"

definition derive_identity :: "8 word list \<Rightarrow> string \<Rightarrow> string" where
  "derive_identity mac uid = toUpperCase (foldl (uniqueId_step mac) uid [0..<6])"

text \<open>What the specification asks for: a byte as two uppercase hexadecimal digits.\<close>

definition HEXDIGITS :: string where
  "HEXDIGITS = ''0123456789ABCDEF''"

definition hex2 :: "8 word \<Rightarrow> string" where
  "hex2 b = [HEXDIGITS ! (unat b div 16), HEXDIGITS ! (unat b mod 16)]"

subsection \<open>Access-point name (\<open>startConfigurationPortal\<close>, lines 156-159)\<close>

definition apName :: "8 word list \<Rightarrow> string" where
  "apName mac =
     toUpperCase (''AgroFlowSensor-'' @ String_byte (mac ! 3) HEX
                    @ String_byte (mac ! 4) HEX @ String_byte (mac ! 5) HEX)"

subsection \<open>Sensor mapping (\<open>readSensorData\<close>, lines 182-199)\<close>

definition DRY_VALUE :: int where
  "DRY_VALUE = 2850"

definition WET_VALUE :: int where
  "WET_VALUE = 1350"

text \<open>
  Arduino's \<open>map\<close> on \<open>long\<close>, with C's division that truncates towards zero
  (\<open>sdiv\<close>). The function belongs to the Arduino core, not to the sketch, and the
  cores for Espressif chips have shipped two bodies: the classic
  \<open>(x - in_min) * (out_max - out_min) / (in_max - in_min) + out_min\<close> and one that
  adds half the divisor before dividing; \<open>rounding\<close> selects the second. Both return
  \<open>-1\<close> for an empty input range.
\<close>

definition map_long :: "bool \<Rightarrow> int \<Rightarrow> int \<Rightarrow> int \<Rightarrow> int \<Rightarrow> int \<Rightarrow> int" where
  "map_long rounding x in_min in_max out_min out_max =
     (let run = in_max - in_min; rise = out_max - out_min; delta = x - in_min
      in if run = 0 then - 1
         else if rounding then (delta * rise + run sdiv 2) sdiv run + out_min
         else (delta * rise) sdiv run + out_min)"

text \<open>The \<open>constrain(amt, low, high)\<close> macro.\<close>

definition constrain :: "int \<Rightarrow> int \<Rightarrow> int \<Rightarrow> int" where
  "constrain amt low high = (if amt < low then low else if amt > high then high else amt)"

text \<open>
  The value \<open>readSensorData\<close> computes from the raw reading. \<open>analogRead\<close> returns a
  \<open>uint16_t\<close>, which is widened to \<open>int\<close>; the result is an \<open>int\<close> between 0 and 100,
  which the final cast to \<open>float\<close> represents exactly.
\<close>

definition humidityPercent :: "bool \<Rightarrow> 16 word \<Rightarrow> int" where
  "humidityPercent rounding raw =
     (let rawValue = uint raw;
          h = map_long rounding rawValue DRY_VALUE WET_VALUE 0 100
      in constrain h 0 100)"

subsection \<open>Scan response (\<open>handleScan\<close>, lines 133-143)\<close>

text \<open>
  A scan result is the table that \<open>WiFi.SSID(i)\<close> and \<open>WiFi.RSSI(i)\<close> index;
  \<open>WiFi.scanNetworks()\<close> returns its length. Both accessors take the index as a
  \<open>uint8_t\<close>, so the \<open>int\<close> loop variable is reduced modulo 256 on the way in
  (\<open>scan_at\<close>). \<open>scan_entry\<close> is the text appended for one named network,
  \<open>scan_loop\<close> the \<open>for\<close> loop with its \<open>continue\<close>.
\<close>

type_synonym network = "string \<times> 32 word"

definition scan_entry :: "network \<Rightarrow> string" where
  \<open>scan_entry net =
     ''{"ssid":"'' @ fst net @ ''","rssi":'' @ String_int (sint (snd net)) @ ''}''\<close>

definition scan_at :: "network list \<Rightarrow> int \<Rightarrow> network" where
  "scan_at nets i = nets ! nat (i mod 256)"

function scan_loop :: "network list \<Rightarrow> int \<Rightarrow> int \<Rightarrow> string \<Rightarrow> string" where
  "scan_loop nets n i json =
     (if i < n then
        (if fst (scan_at nets i) = [] then scan_loop nets n (i + 1) json
         else scan_loop nets n (i + 1)
                ((if i > 0 then json @ '','' else json) @ scan_entry (scan_at nets i)))
      else json)"
  by pat_completeness auto
termination
  by (relation "measure (\<lambda>(nets, n, i, json). nat (n - i))") auto

declare scan_loop.simps [simp del]

definition handleScan_json :: "network list \<Rightarrow> string" where
  "handleScan_json nets = scan_loop nets (int (length nets)) 0 ''['' @ '']''"

text \<open>
  What the specification asks for: the entries of the named networks, in scan order,
  separated by commas and enclosed in brackets.
\<close>

fun join_commas :: "string list \<Rightarrow> string" where
  "join_commas [] = []"
| "join_commas [x] = x"
| "join_commas (x # y # ys) = x @ '','' @ join_commas (y # ys)"

definition scan_json_spec :: "network list \<Rightarrow> string" where
  "scan_json_spec nets =
     ''['' @ join_commas (map scan_entry (filter (\<lambda>net. fst net \<noteq> []) nets)) @ '']''"

subsection \<open>Effects, device state and environment\<close>

text \<open>
  Every call that touches the world outside the sketch is an event of the trace, in program
  order. \<open>Print\<close> and \<open>Println\<close> are \<open>Serial.print\<close> and \<open>Serial.println\<close> with the
  text printed. The JSON document of a telemetry message is kept structured
  (\<open>reading\<close>); its serialisation is the job of the ArduinoJson library.
\<close>

record reading =
  device_id :: string
  humidity :: int
  timestamp :: "64 word"

datatype body = IndexHtml | Body string

datatype event =
    SerialBegin nat
  | Print string
  | Println string
  | PrintlnDoc reading
  | Delay nat
  | PinMode nat string
  | DigitalWrite nat bool
  | DigitalRead nat
  | AnalogRead nat
  | PrefsBegin string
  | PrefsPut string string
  | PrefsClear
  | Restart
  | WifiMacAddress
  | WifiMode string
  | WifiBegin string string
  | WifiStatus
  | WifiSoftAP string
  | WifiScan
  | DnsStart
  | DnsProcess
  | ServerBegin
  | HttpSend nat string body
  | ConfigTime
  | GetLocalTime
  | TimeRead
  | MqttSetServer string nat
  | MqttSetCallback
  | MqttConnected
  | MqttConnect string
  | MqttSubscribe string
  | MqttLoop
  | MqttPublish string reading

text \<open>
  The state of the device: the flash store behind \<open>Preferences\<close> (all that survives a
  restart), whether \<open>preferences.begin\<close> has opened it, the global variables of the
  sketch, the number of inputs consumed so far and the trace.
\<close>

record device =
  nvs :: "string \<rightharpoonup> string"
  prefs_started :: bool
  uniqueId :: string
  lastMsg :: "32 word"
  commandTopic :: string
  tick :: nat
  trace :: "event list"

datatype http_method = HTTP_GET | HTTP_POST | HTTP_OTHER

record request =
  http_method :: http_method
  path :: string
  args :: "(string \<times> string) list"

text \<open>
  The environment: what the hardware and the libraries answer. Each answer that can
  change over time is a function of the tick at which it is asked, and every question
  advances the tick, so any sequence of answers can be described.
\<close>

record env =
  mac :: "8 word list"
  pin_low :: "nat \<Rightarrow> bool"
  begin_ok :: bool
  wifi_connected :: "nat \<Rightarrow> bool"
  ap_ip :: string
  local_ip :: string
  scan :: "nat \<Rightarrow> network list"
  http :: "nat \<Rightarrow> request option"
  adc :: "nat \<Rightarrow> 16 word"
  map_rounding :: bool
  local_time_ok :: "nat \<Rightarrow> bool"
  unix_time :: "nat \<Rightarrow> int"
  millis :: "nat \<Rightarrow> 32 word"
  mqtt_connected :: "nat \<Rightarrow> bool"
  mqtt_connect_ok :: "nat \<Rightarrow> bool"
  mqtt_state :: "nat \<Rightarrow> int"
  mqtt_inbox :: "nat \<Rightarrow> (string \<times> string) option"

text \<open>
  How a call ends: it returns to its caller, it has called \<open>ESP.restart()\<close> (which
  does not return), or it is still inside a loop when the fuel given to that loop is spent.
\<close>

datatype outcome = Returned device | Restarted device | Spinning device

fun state_of :: "outcome \<Rightarrow> device" where
  "state_of (Returned s) = s"
| "state_of (Restarted s) = s"
| "state_of (Spinning s) = s"

fun and_then :: "outcome \<Rightarrow> (device \<Rightarrow> outcome) \<Rightarrow> outcome" where
  "and_then (Returned s) f = f s"
| "and_then (Restarted s) f = Restarted s"
| "and_then (Spinning s) f = Spinning s"

definition emit :: "event \<Rightarrow> device \<Rightarrow> device" where
  "emit e s = s\<lparr>trace := trace s @ [e]\<rparr>"

definition next_tick :: "device \<Rightarrow> device" where
  "next_tick s = s\<lparr>tick := Suc (tick s)\<rparr>"

definition print :: "string \<Rightarrow> device \<Rightarrow> device" where
  "print txt s = emit (Print txt) s"

definition println :: "string \<Rightarrow> device \<Rightarrow> device" where
  "println txt s = emit (Println txt) s"

definition delay :: "nat \<Rightarrow> device \<Rightarrow> device" where
  "delay ms s = emit (Delay ms) s"

text \<open>The device as it comes out of reset: only the flash store is carried over.\<close>

definition power_on :: "(string \<rightharpoonup> string) \<Rightarrow> device" where
  "power_on flash =
     \<lparr>nvs = flash, prefs_started = False, uniqueId = [], lastMsg = 0,
      commandTopic = [], tick = 0, trace = []\<rparr>"

subsection \<open>The \<open>Preferences\<close> library\<close>

text \<open>
  The library's contract, as the ESP32 core implements it: \<open>begin\<close> opens the namespace
  and may fail; until it has succeeded \<open>clear\<close> and \<open>putString\<close> change nothing and
  \<open>getString\<close> returns the default. Values are C strings: they end at the first NUL.
\<close>

definition cstr :: "string \<Rightarrow> string" where
  "cstr s = takeWhile (\<lambda>c. c \<noteq> CHR 0x00) s"

definition prefs_begin :: "env \<Rightarrow> string \<Rightarrow> device \<Rightarrow> device" where
  "prefs_begin e name s = emit (PrefsBegin name) (s\<lparr>prefs_started := begin_ok e\<rparr>)"

definition prefs_clear :: "device \<Rightarrow> device" where
  "prefs_clear s = emit PrefsClear (if prefs_started s then s\<lparr>nvs := Map.empty\<rparr> else s)"

definition prefs_putString :: "string \<Rightarrow> string \<Rightarrow> device \<Rightarrow> device" where
  "prefs_putString key v s =
     emit (PrefsPut key v) (if prefs_started s then s\<lparr>nvs := (nvs s)(key \<mapsto> cstr v)\<rparr> else s)"

definition prefs_getString :: "string \<Rightarrow> string \<Rightarrow> device \<Rightarrow> string" where
  "prefs_getString key dflt s =
     (if prefs_started s then (case nvs s key of None \<Rightarrow> dflt | Some v \<Rightarrow> cstr v) else dflt)"

subsection \<open>Helpers of the sketch (lines 113-129)\<close>

definition clearConfigAndRestart :: "device \<Rightarrow> outcome" where
  "clearConfigAndRestart s =
     (let s1 = println ''Limpando todas as configuracoes e reiniciando...'' s;
          s2 = prefs_clear s1;
          s3 = delay 1000 s2
      in Restarted (emit Restart s3))"

definition getUnixTimestampMillis :: "env \<Rightarrow> device \<Rightarrow> 64 word \<times> device" where
  "getUnixTimestampMillis e s =
     (let ok = local_time_ok e (tick s);
          s1 = next_tick (emit GetLocalTime s)
      in if \<not> ok then (0, println ''Falha ao obter o tempo'' s1)
         else (let now = unix_time e (tick s1);
                   s2 = next_tick (emit TimeRead s1)
               in (word_of_int now * 1000, s2)))"

subsection \<open>Configuration portal (lines 132-179)\<close>

definition handleRoot :: "device \<Rightarrow> outcome" where
  "handleRoot s = Returned (emit (HttpSend 200 ''text/html'' IndexHtml) s)"

definition handleScan :: "env \<Rightarrow> device \<Rightarrow> outcome" where
  "handleScan e s =
     (let nets = scan e (tick s);
          s1 = next_tick (emit WifiScan s)
      in Returned (emit (HttpSend 200 ''application/json'' (Body (handleScan_json nets))) s1))"

text \<open>\<open>server.arg(name)\<close>: the value of the first argument of that name, or the empty
  string.\<close>

definition server_arg :: "request \<Rightarrow> string \<Rightarrow> string" where
  "server_arg req name = (case map_of (args req) name of None \<Rightarrow> [] | Some v \<Rightarrow> v)"

definition responsePage :: string where
  "responsePage =
     ''<html><body style='' @ [CHR 0x27] @ ''font-family: sans-serif; text-align: center; margin-top: 50px;''
       @ [CHR 0x27] @ ''>''
       @ ''<h2>Configuracoes salvas!</h2>''
       @ ''<p>O dispositivo sera reiniciado em 3 segundos para se conectar a sua rede.</p>''
       @ ''</body></html>''"

definition handleSave :: "request \<Rightarrow> device \<Rightarrow> outcome" where
  "handleSave req s =
     (let s1 = prefs_putString ''ssid'' (server_arg req ''ssid'') s;
          s2 = prefs_putString ''password'' (server_arg req ''password'') s1;
          s3 = emit (HttpSend 200 ''text/html'' (Body responsePage)) s2;
          s4 = delay 3000 s3
      in Restarted (emit Restart s4))"

text \<open>The routes registered with \<open>server.on\<close> and \<open>server.onNotFound\<close>.\<close>

definition dispatch :: "env \<Rightarrow> request \<Rightarrow> device \<Rightarrow> outcome" where
  "dispatch e req s =
     (if path req = ''/'' \<and> http_method req = HTTP_GET then handleRoot s
      else if path req = ''/scan'' \<and> http_method req = HTTP_GET then handleScan e s
      else if path req = ''/save'' \<and> http_method req = HTTP_POST then handleSave req s
      else handleRoot s)"

text \<open>The \<open>while (true)\<close> service loop; the fuel counts its iterations.\<close>

fun portal_loop :: "nat \<Rightarrow> env \<Rightarrow> device \<Rightarrow> outcome" where
  "portal_loop 0 e s = Spinning s"
| "portal_loop (Suc n) e s =
     (let s1 = emit DnsProcess s;
          req = http e (tick s1);
          s2 = next_tick s1
      in and_then (case req of None \<Rightarrow> Returned s2 | Some r \<Rightarrow> dispatch e r s2)
           (\<lambda>s3. portal_loop n e (delay 1 s3)))"

definition startConfigurationPortal :: "nat \<Rightarrow> env \<Rightarrow> device \<Rightarrow> outcome" where
  "startConfigurationPortal fuel e s =
     (let s1 = emit WifiMacAddress s;
          name = apName (mac e);
          s2 = emit (WifiSoftAP name) s1;
          s3 = println (CHR 0x0A # ''--- MODO DE CONFIGURACAO VIA PORTAL WEB ---'') s2;
          s4 = print ''Conecte-se a rede: '' s3;
          s5 = println name s4;
          s6 = print ''Acesse o IP: http://'' s5;
          s7 = println (ap_ip e) s6;
          s8 = emit DnsStart s7;
          s9 = emit ServerBegin s8;
          s10 = println ''Servidor web iniciado. Aguardando configuracao...'' s9
      in portal_loop fuel e s10)"

subsection \<open>Sensor and telemetry (lines 182-199 and 242-262)\<close>

definition SENSOR_PIN :: nat where
  "SENSOR_PIN = 34"

definition MQTT_PUB_TOPIC :: string where
  "MQTT_PUB_TOPIC = ''sensors/humidity''"

definition readSensorData :: "env \<Rightarrow> device \<Rightarrow> int \<times> device" where
  "readSensorData e s =
     (let raw = adc e (tick s);
          s1 = next_tick (emit (AnalogRead SENSOR_PIN) s);
          s2 = print ''Valor bruto do sensor: '' s1;
          s3 = println (String_int (uint raw)) s2
      in (humidityPercent (map_rounding e) raw, s3))"

definition publishSensorData :: "env \<Rightarrow> device \<Rightarrow> device" where
  "publishSensorData e s =
     (let (h, s1) = readSensorData e s;
          (ts, s2) = getUnixTimestampMillis e s1
      in if ts = 0 then println ''Aguardando sincronizacao de tempo...'' s2
         else (let doc = \<lparr>device_id = uniqueId s2, humidity = h, timestamp = ts\<rparr>;
                   s3 = emit (MqttPublish MQTT_PUB_TOPIC doc) s2;
                   s4 = print ''Mensagem publicada: '' s3
               in emit (PrintlnDoc doc) s4))"

subsection \<open>Remote command and broker connection (lines 203-239)\<close>

text \<open>\<open>isspace\<close> and \<open>tolower\<close> of the C locale, \<open>String::trim\<close> and
  \<open>String::equalsIgnoreCase\<close>.\<close>

definition isspace :: "char \<Rightarrow> bool" where
  "isspace c = (let n = (of_char c :: nat) in n = 32 \<or> (9 \<le> n \<and> n \<le> 13))"

definition tolower :: "char \<Rightarrow> char" where
  "tolower c =
     (let n = (of_char c :: nat) in if 65 \<le> n \<and> n \<le> 90 then char_of (n + 32) else c)"

definition trim :: "string \<Rightarrow> string" where
  "trim s = rev (dropWhile isspace (rev (dropWhile isspace s)))"

definition equalsIgnoreCase :: "string \<Rightarrow> string \<Rightarrow> bool" where
  "equalsIgnoreCase a b = (length a = length b \<and> map tolower a = map tolower b)"

text \<open>
  The callback reads the payload as a C string (it writes the terminating NUL after
  the last byte first), so the message ends at the first NUL of the payload.
\<close>

definition mqttCallback :: "string \<Rightarrow> string \<Rightarrow> device \<Rightarrow> outcome" where
  "mqttCallback topic payload s =
     (let s1 = print ''Mensagem recebida no topico: '' s;
          s2 = println topic s1
      in if length payload > 0 then
           (let message = cstr payload;
                s3 = print (''Payload recebido: '' @ [CHR 0x27]) s2;
                s4 = print message s3;
                s5 = println [CHR 0x27] s4;
                message = trim message
            in if equalsIgnoreCase message ''RESET'' then
                 clearConfigAndRestart (println ''Comando de reset valido! Reiniciando...'' s5)
               else Returned (println ''Comando invalido.'' s5))
         else Returned (println ''Payload vazio.'' s2))"

text \<open>The \<open>while (!mqtt.connected())\<close> loop; the fuel counts its iterations.\<close>

fun reconnectMQTT :: "nat \<Rightarrow> env \<Rightarrow> device \<Rightarrow> outcome" where
  "reconnectMQTT 0 e s = Spinning s"
| "reconnectMQTT (Suc n) e s =
     (let connected = mqtt_connected e (tick s);
          s1 = next_tick (emit MqttConnected s)
      in if connected then Returned s1
         else (let s2 = print ''Conectando ao MQTT Broker...'' s1;
                   ok = mqtt_connect_ok e (tick s2);
                   s3 = next_tick (emit (MqttConnect (uniqueId s2)) s2)
               in if ok then
                    (let s4 = println ''conectado.'' s3;
                         s5 = emit (MqttSubscribe (commandTopic s4)) s4;
                         s6 = print ''Inscrito no topico de comando: '' s5;
                         s7 = println (commandTopic s6) s6
                     in reconnectMQTT n e s7)
                  else
                    (let s4 = print ''falhou, rc='' s3;
                         s5 = next_tick (print (String_int (mqtt_state e (tick s4))) s4);
                         s6 = println '' tentando novamente em 5 segundos'' s5;
                         s7 = delay 5000 s6
                     in reconnectMQTT n e s7)))"

text \<open>\<open>mqtt.loop()\<close>: hands a message that has arrived to the callback.\<close>

definition mqtt_loop :: "env \<Rightarrow> device \<Rightarrow> outcome" where
  "mqtt_loop e s =
     (let msg = mqtt_inbox e (tick s);
          s1 = next_tick (emit MqttLoop s)
      in case msg of None \<Rightarrow> Returned s1
         | Some (topic, payload) \<Rightarrow> mqttCallback topic payload s1)"

subsection \<open>\<open>setup\<close> (lines 266-323)\<close>

definition RESET_PIN_1 :: nat where
  "RESET_PIN_1 = 22"

definition RESET_PIN_2 :: nat where
  "RESET_PIN_2 = 23"

definition MQTT_HOST :: string where
  "MQTT_HOST = ''test.mosquitto.org''"

definition MQTT_PORT :: nat where
  "MQTT_PORT = 1883"

text \<open>\<open>digitalRead(RESET_PIN_1) == LOW\<close>.\<close>

definition reset_pin_is_low :: "env \<Rightarrow> device \<Rightarrow> bool \<times> device" where
  "reset_pin_is_low e s = (pin_low e (tick s), next_tick (emit (DigitalRead RESET_PIN_1) s))"

text \<open>\<open>WiFi.status() != WL_CONNECTED\<close>.\<close>

definition wifi_not_connected :: "env \<Rightarrow> device \<Rightarrow> bool \<times> device" where
  "wifi_not_connected e s = (\<not> wifi_connected e (tick s), next_tick (emit WifiStatus s))"

text \<open>
  The connect loop of \<open>setup\<close> (lines 304-313). \<open>clearConfigAndRestart\<close> does not
  return, so the loop ends there.
\<close>

function connect_loop :: "env \<Rightarrow> int \<Rightarrow> device \<Rightarrow> outcome" where
  "connect_loop e retries s =
     (let (down, s1) = wifi_not_connected e s
      in if down then
           (let s2 = delay 500 s1;
                s3 = print ''.'' s2;
                retries = retries + 1
            in if retries > 40 then
                 clearConfigAndRestart
                   (println (CHR 0x0A # ''Falha ao conectar. Credenciais podem estar erradas.'') s3)
               else connect_loop e retries s3)
         else Returned s1)"
  by pat_completeness auto
termination
  by (relation "measure (\<lambda>(e, retries, s). nat (41 - retries))")
     (auto simp: wifi_not_connected_def)

declare connect_loop.simps [simp del]

text \<open>\<open>snprintf(commandTopic, sizeof(commandTopic), ...)\<close> keeps at most 99 characters.\<close>

definition command_topic_of :: "string \<Rightarrow> string" where
  "command_topic_of uid = take 99 (''sensors/'' @ cstr uid @ ''/command'')"

definition setup_main :: "nat \<Rightarrow> env \<Rightarrow> device \<Rightarrow> outcome" where
  "setup_main fuel e s =
     (let s1 = emit (SerialBegin 115200) s;
          s2 = delay 1000 s1;
          s3 = println ([CHR 0x0A, CHR 0x0A] @ ''Iniciando dispositivo...'') s2;
          s4 = emit WifiMacAddress s3;
          s5 = s4\<lparr>uniqueId := derive_identity (mac e) (uniqueId s4)\<rparr>;
          s6 = print ''ID unico deste dispositivo: '' s5;
          s7 = println (uniqueId s6) s6;
          s8 = emit (PinMode RESET_PIN_1 ''INPUT_PULLUP'') s7;
          s9 = emit (PinMode RESET_PIN_2 ''OUTPUT'') s8;
          s10 = emit (DigitalWrite RESET_PIN_2 False) s9;
          (low, s11) = reset_pin_is_low e s10
      in and_then
           (if low then
              clearConfigAndRestart (println ''Reset fisico detectado na inicializacao!'' s11)
            else Returned s11)
           (\<lambda>s12.
              let s13 = prefs_begin e ''sensor-config'' s12;
                  ssid = prefs_getString ''ssid'' [] s13
              in if ssid = [] then startConfigurationPortal fuel e s13
                 else
                   (let s14 = println ''Configuracao encontrada. Tentando conectar a rede...'' s13;
                        password = prefs_getString ''password'' [] s14;
                        s15 = emit (WifiMode ''WIFI_STA'') s14;
                        s16 = emit (WifiBegin ssid password) s15;
                        s17 = s16\<lparr>commandTopic := command_topic_of (uniqueId s16)\<rparr>
                    in and_then (connect_loop e 0 s17)
                         (\<lambda>s18.
                            let s19 = print (CHR 0x0A # ''WiFi conectado! IP: '') s18;
                                s20 = println (local_ip e) s19;
                                s21 = println ''Sincronizando relogio com servidor NTP...'' s20;
                                s22 = emit ConfigTime s21;
                                s23 = emit (MqttSetServer MQTT_HOST MQTT_PORT) s22
                            in Returned (emit MqttSetCallback s23)))))"

text \<open>A boot: \<open>setup()\<close> (here \<open>setup_main\<close>) run on the device as it comes out of reset.\<close>

definition boot :: "nat \<Rightarrow> env \<Rightarrow> (string \<rightharpoonup> string) \<Rightarrow> outcome" where
  "boot fuel e flash = setup_main fuel e (power_on flash)"

subsection \<open>\<open>loop\<close> (lines 325-348)\<close>

text \<open>
  One iteration of the main loop. The fuel is that of the broker reconnection loop, the
  only loop inside an iteration.
\<close>

definition loop :: "nat \<Rightarrow> env \<Rightarrow> device \<Rightarrow> outcome" where
  "loop fuel e s =
     (let (low, s1) = reset_pin_is_low e s
      in and_then
           (if low then
              clearConfigAndRestart (println ''Reset fisico detectado durante a operacao!'' s1)
            else Returned s1)
           (\<lambda>s2.
              let (down, s3) = wifi_not_connected e s2
              in and_then
                   (if down then
                      (let s4 = println ''Conexao WiFi perdida. Reiniciando para tentar reconectar...'' s3;
                           s5 = delay 1000 s4
                       in Restarted (emit Restart s5))
                    else Returned s3)
                   (\<lambda>s6.
                      let connected = mqtt_connected e (tick s6);
                          s7 = next_tick (emit MqttConnected s6)
                      in and_then
                           (if \<not> connected then reconnectMQTT fuel e s7 else Returned s7)
                           (\<lambda>s8.
                              and_then (mqtt_loop e s8)
                                (\<lambda>s9.
                                   let now = millis e (tick s9);
                                       s10 = next_tick s9
                                   in if 5000 <s now - lastMsg s10 then
                                        Returned (publishSensorData e (s10\<lparr>lastMsg := now\<rparr>))
                                      else Returned s10)))))"

subsection \<open>Reading a trace\<close>

text \<open>How often an event occurs, and the time spent in \<open>delay\<close>, in milliseconds.\<close>

definition count_event :: "event \<Rightarrow> event list \<Rightarrow> nat" where
  "count_event ev tr = length (filter ((=) ev) tr)"




fun is_softap :: "event \<Rightarrow> bool" where
  "is_softap (WifiSoftAP name) = True"
| "is_softap _ = False"

fun is_wifi_begin :: "event \<Rightarrow> bool" where
  "is_wifi_begin (WifiBegin ssid password) = True"
| "is_wifi_begin _ = False"

fun is_publish :: "event \<Rightarrow> bool" where
  "is_publish (MqttPublish topic doc) = True"
| "is_publish _ = False"

fun is_serial :: "event \<Rightarrow> bool" where
  "is_serial (Print txt) = True"
| "is_serial (Println txt) = True"
| "is_serial (PrintlnDoc doc) = True"
| "is_serial _ = False"


text \<open>
  The lifecycle states of the specification, read off what a boot did: the portal is
  active once the access point has been started, the device is connecting once the join
  has been started, and it is operating when \<open>setup()\<close> has returned.
\<close>

definition entered_PortalActive :: "outcome \<Rightarrow> bool" where
  "entered_PortalActive out = list_ex is_softap (trace (state_of out))"

definition entered_Connecting :: "outcome \<Rightarrow> bool" where
  "entered_Connecting out = list_ex is_wifi_begin (trace (state_of out))"

fun reached_Operating :: "outcome \<Rightarrow> bool" where
  "reached_Operating (Returned s) = True"
| "reached_Operating _ = False"

subsection \<open>Bench scenarios\<close>

text \<open>
  A device on the bench: address \<open>24:6F:28:0A:0B:0C\<close>, reset pin released, store
  opening, network and broker reachable, clock synchronised, a mid-range sensor reading.
  The other scenarios change one answer each.
\<close>

definition bench_env :: env where
  "bench_env =
     \<lparr>mac = [0x24, 0x6F, 0x28, 0x0A, 0x0B, 0x0C],
      pin_low = (\<lambda>t. False),
      begin_ok = True,
      wifi_connected = (\<lambda>t. True),
      ap_ip = ''192.168.4.1'',
      local_ip = ''192.168.1.50'',
      scan = (\<lambda>t. [(''A'', - 40), (''B'', - 70)]),
      http = (\<lambda>t. None),
      adc = (\<lambda>t. 2100),
      map_rounding = False,
      local_time_ok = (\<lambda>t. True),
      unix_time = (\<lambda>t. 1700000000),
      millis = (\<lambda>t. 6000),
      mqtt_connected = (\<lambda>t. True),
      mqtt_connect_ok = (\<lambda>t. True),
      mqtt_state = (\<lambda>t. - 2),
      mqtt_inbox = (\<lambda>t. None)\<rparr>"

definition flash_home :: "string \<rightharpoonup> string" where
  "flash_home = [''ssid'' \<mapsto> ''Home'', ''password'' \<mapsto> ''secret'']"

text \<open>The configured network never comes up.\<close>

definition env_wifi_down :: env where
  "env_wifi_down = bench_env\<lparr>wifi_connected := (\<lambda>t. False)\<rparr>"

text \<open>The network is up during \<open>setup()\<close> (its only status poll is at tick 1) and gone
  afterwards.\<close>

definition env_wifi_lost :: env where
  "env_wifi_lost = bench_env\<lparr>wifi_connected := (\<lambda>t. t \<le> 1)\<rparr>"

text \<open>The store cannot be opened.\<close>

definition env_store_fails :: env where
  "env_store_fails = bench_env\<lparr>begin_ok := False\<rparr>"

text \<open>The clock has not been synchronised yet.\<close>

definition env_no_time :: env where
  "env_no_time = bench_env\<lparr>local_time_ok := (\<lambda>t. False)\<rparr>"




text \<open>A scan that sees a hidden network first.\<close>

definition env_hidden_first :: env where
  "env_hidden_first = bench_env\<lparr>scan := (\<lambda>t. [([], - 50), (''A'', - 40)])\<rparr>"




text \<open>The sensor reads exactly the dry, or exactly the wet, calibration value.\<close>

definition env_dry :: env where
  "env_dry = bench_env\<lparr>adc := (\<lambda>t. 2850)\<rparr>"

definition env_wet :: env where
  "env_wet = bench_env\<lparr>adc := (\<lambda>t. 1350)\<rparr>"

subsection \<open>Phases of a run\<close>

text \<open>
  Names for stretches of the trace and for states that the properties below refer to.
  \<open>setup_prelude\<close> is what \<open>setup()\<close> does up to and including the read of the reset
  pin, and \<open>after_prelude\<close> the device at that point.
\<close>

definition setup_prelude :: "env \<Rightarrow> event list" where
  "setup_prelude e =
     [SerialBegin 115200, Delay 1000,
      Println ([CHR 0x0A, CHR 0x0A] @ ''Iniciando dispositivo...''),
      WifiMacAddress, Print ''ID unico deste dispositivo: '',
      Println (derive_identity (mac e) []),
      PinMode RESET_PIN_1 ''INPUT_PULLUP'', PinMode RESET_PIN_2 ''OUTPUT'',
      DigitalWrite RESET_PIN_2 False, DigitalRead RESET_PIN_1]"

definition after_prelude :: "env \<Rightarrow> (string \<rightharpoonup> string) \<Rightarrow> device" where
  "after_prelude e flash =
     \<lparr>nvs = flash, prefs_started = False, uniqueId = derive_identity (mac e) [], lastMsg = 0,
      commandTopic = [], tick = 1, trace = setup_prelude e\<rparr>"

text \<open>What \<open>startConfigurationPortal\<close> does before its service loop.\<close>

definition portal_banner :: "env \<Rightarrow> event list" where
  "portal_banner e =
     [WifiMacAddress, WifiSoftAP (apName (mac e)),
      Println (CHR 0x0A # ''--- MODO DE CONFIGURACAO VIA PORTAL WEB ---''),
      Print ''Conecte-se a rede: '', Println (apName (mac e)),
      Print ''Acesse o IP: http://'', Println (ap_ip e), DnsStart, ServerBegin,
      Println ''Servidor web iniciado. Aguardando configuracao...'']"

text \<open>The value \<open>getString\<close> returns for a key of an opened store, with default
  \<open>""\<close>.\<close>

definition stored :: "(string \<rightharpoonup> string) \<Rightarrow> string \<Rightarrow> string" where
  "stored flash key = (case flash key of None \<Rightarrow> [] | Some v \<Rightarrow> cstr v)"

text \<open>
  With credentials stored: the events from opening the store to starting the join, the
  device as it enters the connect loop, and the events after a successful join.
\<close>

definition join_events :: "string \<Rightarrow> string \<Rightarrow> event list" where
  "join_events ssid password =
     [PrefsBegin ''sensor-config'',
      Println ''Configuracao encontrada. Tentando conectar a rede...'',
      WifiMode ''WIFI_STA'', WifiBegin ssid password]"

definition joining :: "env \<Rightarrow> (string \<rightharpoonup> string) \<Rightarrow> device" where
  "joining e flash =
     \<lparr>nvs = flash, prefs_started = True, uniqueId = derive_identity (mac e) [], lastMsg = 0,
      commandTopic = command_topic_of (derive_identity (mac e) []), tick = 1,
      trace = setup_prelude e @ join_events (stored flash ''ssid'') (stored flash ''password'')\<rparr>"

definition online_events :: "env \<Rightarrow> event list" where
  "online_events e =
     [Print (CHR 0x0A # ''WiFi conectado! IP: ''), Println (local_ip e),
      Println ''Sincronizando relogio com servidor NTP...'', ConfigTime,
      MqttSetServer MQTT_HOST MQTT_PORT, MqttSetCallback]"

text \<open>One round of the connect loop without success, and what the loop does when it
  gives up.\<close>

definition poll_round :: "event list" where
  "poll_round = [WifiStatus, Delay 500, Print ''.'']"

definition give_up_events :: "event list" where
  "give_up_events =
     [Println (CHR 0x0A # ''Falha ao conectar. Credenciais podem estar erradas.''),
      Println ''Limpando todas as configuracoes e reiniciando...'',
      PrefsClear, Delay 1000, Restart]"


text \<open>
  For the scan response: whether a network has a name, and the text the loop of
  \<open>handleScan\<close> appends at index \<open>k\<close>.
\<close>

definition named :: "network \<Rightarrow> bool" where
  "named net = (fst net \<noteq> [])"

definition sep_entry :: "network list \<Rightarrow> nat \<Rightarrow> string" where
  "sep_entry nets k =
     (if fst (nets ! k) = [] then []
      else (if 0 < k then '','' else []) @ scan_entry (nets ! k))"

subsection \<open>A telemetry cycle\<close>

text \<open>
  What one call of \<open>publishSensorData\<close> does, from the state \<open>s\<close> it starts in: the
  events of sampling the sensor, the timestamp it computes when the time is available,
  the reading it assembles, and the events of the whole cycle.
\<close>

definition sample_events :: "env \<Rightarrow> device \<Rightarrow> event list" where
  "sample_events e s =
     [AnalogRead SENSOR_PIN, Print ''Valor bruto do sensor: '',
      Println (String_int (uint (adc e (tick s))))]"

definition cycle_timestamp :: "env \<Rightarrow> device \<Rightarrow> 64 word" where
  "cycle_timestamp e s = word_of_int (unix_time e (Suc (Suc (tick s)))) * 1000"

definition cycle_reading :: "env \<Rightarrow> device \<Rightarrow> reading" where
  "cycle_reading e s =
     \<lparr>device_id = uniqueId s,
      humidity = humidityPercent (map_rounding e) (adc e (tick s)),
      timestamp = cycle_timestamp e s\<rparr>"

definition cycle_events :: "env \<Rightarrow> device \<Rightarrow> event list" where
  "cycle_events e s =
     sample_events e s @ GetLocalTime #
       (if \<not> local_time_ok e (Suc (tick s)) then
          [Println ''Falha ao obter o tempo'', Println ''Aguardando sincronizacao de tempo...'']
        else if cycle_timestamp e s = 0 then
          [TimeRead, Println ''Aguardando sincronizacao de tempo...'']
        else
          [TimeRead, MqttPublish MQTT_PUB_TOPIC (cycle_reading e s),
           Print ''Mensagem publicada: '', PrintlnDoc (cycle_reading e s)])"

subsection \<open>Comparing runs\<close>



text \<open>Two calls end the same way, having consumed as many inputs and left the same
  trace.\<close>

fun same_effects :: "outcome \<Rightarrow> outcome \<Rightarrow> bool" where
  "same_effects (Returned a) (Returned b) = (tick a = tick b \<and> trace a = trace b)"
| "same_effects (Restarted a) (Restarted b) = (tick a = tick b \<and> trace a = trace b)"
| "same_effects (Spinning a) (Spinning b) = (tick a = tick b \<and> trace a = trace b)"
| "same_effects _ _ = False"


section \<open>Properties\<close>

lemmas prim_defs = emit_def next_tick_def print_def println_def delay_def
  prefs_begin_def prefs_clear_def prefs_putString_def prefs_getString_def

subsection \<open>Hexadecimal rendering of a byte\<close>

lemma utoa_rev_small: "v < base \<Longrightarrow> 2 \<le> base \<Longrightarrow> utoa_rev v base = [digits36 ! v]"
  by (subst utoa_rev.simps) simp

lemma utoa_rev_two:
  assumes "base \<le> v" "v < base * base" "2 \<le> base"
  shows "utoa_rev v base = [digits36 ! (v mod base), digits36 ! (v div base)]"
proof -
  have d: "v div base < base" using assms
    by (simp add: less_mult_imp_div_less)
  have nz: "v div base \<noteq> 0" using assms by (simp add: div_greater_zero_iff)
  show ?thesis
    using d nz assms by (subst utoa_rev.simps) (simp add: utoa_rev_small)
qed

lemma utoa_hex_byte:
  assumes "n < 256"
  shows "utoa n 16 = (if n < 16 then [digits36 ! n] else [digits36 ! (n div 16), digits36 ! (n mod 16)])"
proof (cases "n < 16")
  case True
  then show ?thesis by (simp add: utoa_def utoa_rev_small)
next
  case False
  then have "utoa_rev n 16 = [digits36 ! (n mod 16), digits36 ! (n div 16)]"
    using assms by (intro utoa_rev_two) simp_all
  then show ?thesis using False by (simp add: utoa_def)
qed

lemma toupper_digits16: "\<forall>d\<in>set [0..<16]. toupper (digits36 ! d) = HEXDIGITS ! d"
  by code_simp

lemma toupper_digit: "d < 16 \<Longrightarrow> toupper (digits36 ! d) = HEXDIGITS ! d"
  using toupper_digits16 by simp

lemma toupper_zero: "toupper (CHR ''0'') = HEXDIGITS ! 0"
  by code_simp

lemma byte_padded_hex2:
  "toUpperCase ((if b < 16 then ''0'' else []) @ String_byte b HEX) = hex2 b"
proof -
  have n: "unat b < 256" using unsigned_less [of b, where ?'a = nat] by simp
  have lt: "b < 16 \<longleftrightarrow> unat b < 16" by (simp add: word_less_nat_alt)
  show ?thesis
  proof (cases "unat b < 16")
    case True
    then show ?thesis using n
      by (simp add: lt toUpperCase_def String_byte_def HEX_def utoa_hex_byte hex2_def
            toupper_digit toupper_zero)
  next
    case False
    have "unat b div 16 < 16" using n by simp
    then show ?thesis using False n
      by (simp add: lt toUpperCase_def String_byte_def HEX_def utoa_hex_byte hex2_def
            toupper_digit)
  qed
qed

lemma uniqueId_step_upper:
  "toUpperCase (uniqueId_step m uid i) = toUpperCase uid @ hex2 (m ! i)"
proof -
  have "uniqueId_step m uid i = uid @ (if m ! i < 16 then ''0'' else []) @ String_byte (m ! i) HEX"
    by (simp add: uniqueId_step_def Let_def)
  then have "toUpperCase (uniqueId_step m uid i) =
      toUpperCase uid @ toUpperCase ((if m ! i < 16 then ''0'' else []) @ String_byte (m ! i) HEX)"
    by (simp only: toUpperCase_def map_append)
  then show ?thesis by (simp only: byte_padded_hex2)
qed

lemma foldl_uniqueId_step:
  "toUpperCase (foldl (uniqueId_step m) uid is) =
     toUpperCase uid @ concat (map (\<lambda>i. hex2 (m ! i)) is)"
proof (induction "is" arbitrary: uid)
  case Nil
  then show ?case by simp
next
  case (Cons i "is")
  show ?case by (simp add: Cons.IH uniqueId_step_upper)
qed

lemma derive_identity_eq:
  assumes "length m = 6"
  shows "derive_identity m uid = toUpperCase uid @ concat (map hex2 m)"
proof -
  have "map (\<lambda>i. hex2 (m ! i)) [0..<6] = map hex2 (map ((!) m) [0..<length m])"
    using assms by simp
  also have "\<dots> = map hex2 m" by (simp only: map_nth)
  finally show ?thesis by (simp add: derive_identity_def foldl_uniqueId_step)
qed

lemma hex2_length: "length (hex2 b) = 2" by (simp add: hex2_def)

lemma hex2_chars: "set (hex2 b) \<subseteq> set HEXDIGITS"
proof -
  have n: "unat b < 256" using unsigned_less [of b, where ?'a = nat] by simp
  then have "unat b div 16 < length HEXDIGITS" "unat b mod 16 < length HEXDIGITS"
    by (simp_all add: HEXDIGITS_def)
  then have "HEXDIGITS ! (unat b div 16) \<in> set HEXDIGITS" "HEXDIGITS ! (unat b mod 16) \<in> set HEXDIGITS"
    by (simp_all only: nth_mem)
  then show ?thesis unfolding hex2_def
    by (metis empty_set insert_subset list.simps(15) empty_subsetI)
qed

lemma concat_hex2_length: "length (concat (map hex2 m)) = 2 * length m"
  by (induction m) (simp_all add: hex2_length)

lemma concat_hex2_chars: "set (concat (map hex2 m)) \<subseteq> set HEXDIGITS"
  using hex2_chars by auto

subsection \<open>Sensor mapping\<close>

lemma constrain_range: "0 \<le> constrain h 0 100 \<and> constrain h 0 100 \<le> 100"
  by (simp add: constrain_def)

lemma map_dry_side:
  assumes "DRY_VALUE \<le> x"
  shows "map_long r x DRY_VALUE WET_VALUE 0 100 \<le> 0"
proof -
  let ?d = "x - 2850"
  have d: "0 \<le> ?d" using assms by (simp add: DRY_VALUE_def)
  show ?thesis
  proof (cases r)
    case False
    have "(?d * 100) sdiv (- 1500) \<le> 0"
      using d by (simp add: signed_divide_int_def sgn_if)
    then show ?thesis using False
      by (simp add: map_long_def DRY_VALUE_def WET_VALUE_def)
  next
    case True
    have h: "(- 1500 :: int) sdiv 2 = - 750" by (simp add: signed_divide_int_def)
    have "(?d * 100 + (- 750)) sdiv (- 1500) \<le> 0"
    proof (cases "?d * 100 - 750 < 0")
      case True
      then have "\<bar>?d * 100 - 750\<bar> < 1500" using d by (simp add: abs_if)
      then have "\<bar>?d * 100 - 750\<bar> div 1500 = 0" by simp
      then show ?thesis by (simp add: signed_divide_int_def)
    next
      case False
      then show ?thesis by (simp add: signed_divide_int_def sgn_if)
    qed
    then show ?thesis using True h
      by (simp add: map_long_def DRY_VALUE_def WET_VALUE_def)
  qed
qed

lemma map_wet_side:
  assumes "x \<le> WET_VALUE"
  shows "100 \<le> map_long r x DRY_VALUE WET_VALUE 0 100"
proof -
  let ?d = "x - 2850"
  have d: "?d \<le> - 1500" using assms by (simp add: WET_VALUE_def)
  show ?thesis
  proof (cases r)
    case False
    have "\<bar>?d * 100\<bar> \<ge> 150000" using d by (simp add: abs_if)
    then have "\<bar>?d * 100\<bar> div 1500 \<ge> 100" by arith
    moreover have "?d * 100 < 0" using d by (simp add: mult_less_0_iff)
    ultimately have "100 \<le> (?d * 100) sdiv (- 1500)"
      by (simp add: signed_divide_int_def sgn_if)
    then show ?thesis using False
      by (simp add: map_long_def DRY_VALUE_def WET_VALUE_def)
  next
    case True
    have h: "(- 1500 :: int) sdiv 2 = - 750" by (simp add: signed_divide_int_def)
    have "\<bar>?d * 100 + (- 750)\<bar> \<ge> 150000" using d by (simp add: abs_if)
    then have "\<bar>?d * 100 + (- 750)\<bar> div 1500 \<ge> 100" by arith
    moreover have "?d * 100 + (- 750) < 0" using d by (simp add: algebra_simps)
    ultimately have "100 \<le> (?d * 100 + (- 750)) sdiv (- 1500)"
      by (simp add: signed_divide_int_def sgn_if)
    then show ?thesis using True h
      by (simp add: map_long_def DRY_VALUE_def WET_VALUE_def)
  qed
qed

lemma humidity_dry_side: "DRY_VALUE \<le> uint raw \<Longrightarrow> humidityPercent r raw = 0"
  using map_dry_side [of "uint raw" r]
  by (simp add: humidityPercent_def constrain_def Let_def)

lemma humidity_wet_side: "uint raw \<le> WET_VALUE \<Longrightarrow> humidityPercent r raw = 100"
  using map_wet_side [of "uint raw" r]
  by (simp add: humidityPercent_def constrain_def Let_def)

lemma map_long_exact_points:
  "map_long r DRY_VALUE DRY_VALUE WET_VALUE 0 100 = 0"
  "map_long r WET_VALUE DRY_VALUE WET_VALUE 0 100 = 100"
  by (cases r; simp add: map_long_def DRY_VALUE_def WET_VALUE_def signed_divide_int_def)+

text \<open>
  The model computes in unbounded integers. For every value \<open>analogRead\<close> can return,
  the intermediate results of \<open>map\<close> fit the 32-bit \<open>long\<close> of the ESP32, so the
  C arithmetic does not overflow and agrees with the model.
\<close>

lemma map_long_fits:
  fixes raw :: "16 word"
  defines "delta \<equiv> uint raw - DRY_VALUE"
  shows "- (2 ^ 31) \<le> delta * 100 + (WET_VALUE - DRY_VALUE) sdiv 2 \<and>
         delta * 100 + (WET_VALUE - DRY_VALUE) sdiv 2 < 2 ^ 31 \<and>
         - (2 ^ 31) \<le> delta * 100 \<and> delta * 100 < 2 ^ 31"
proof -
  have "0 \<le> uint raw" "uint raw < 65536"
    using unsigned_less [of raw, where ?'a = int] by simp_all
  then show ?thesis
    by (simp add: delta_def DRY_VALUE_def WET_VALUE_def signed_divide_int_def)
qed

text \<open>
  C9. For every raw value the analog input can deliver, \<open>readSensorData\<close> returns a
  value between 0 and 100; it returns exactly 0 at the dry calibration value and
  exactly 100 at the wet one, 0 for every raw value at or beyond the dry value and 100
  for every raw value at or beyond the wet value. This holds for both bodies of
  \<open>map\<close>.
\<close>

theorem readSensorData_clamped:
  "0 \<le> fst (readSensorData e s) \<and> fst (readSensorData e s) \<le> 100 \<and>
   (uint (adc e (tick s)) = DRY_VALUE \<longrightarrow> fst (readSensorData e s) = 0) \<and>
   (uint (adc e (tick s)) = WET_VALUE \<longrightarrow> fst (readSensorData e s) = 100) \<and>
   (DRY_VALUE \<le> uint (adc e (tick s)) \<longrightarrow> fst (readSensorData e s) = 0) \<and>
   (uint (adc e (tick s)) \<le> WET_VALUE \<longrightarrow> fst (readSensorData e s) = 100)"
proof -
  have f: "fst (readSensorData e s) = humidityPercent (map_rounding e) (adc e (tick s))"
    by (simp add: readSensorData_def Let_def)
  have r: "0 \<le> humidityPercent (map_rounding e) (adc e (tick s)) \<and>
           humidityPercent (map_rounding e) (adc e (tick s)) \<le> 100"
    using constrain_range by (simp add: humidityPercent_def Let_def)
  show ?thesis
    using r humidity_dry_side humidity_wet_side by (simp add: f)
qed

text \<open>At the two calibration points.\<close>

theorem readSensorData_clamped_witness:
  "uint (adc env_dry (tick (power_on flash_home))) = DRY_VALUE \<and>
   fst (readSensorData env_dry (power_on flash_home)) = 0 \<and>
   uint (adc env_wet (tick (power_on flash_home))) = WET_VALUE \<and>
   fst (readSensorData env_wet (power_on flash_home)) = 100"
  using readSensorData_clamped [of env_dry "power_on flash_home"]
        readSensorData_clamped [of env_wet "power_on flash_home"]
  by (simp add: env_dry_def env_wet_def bench_env_def power_on_def DRY_VALUE_def WET_VALUE_def)

subsection \<open>Access-point name\<close>

lemma toUpperCase_prefix: "toUpperCase ''AgroFlowSensor-'' = ''AGROFLOWSENSOR-''"
  by code_simp

lemma String_byte_two_digits:
  assumes "16 \<le> b"
  shows "toUpperCase (String_byte b HEX) = hex2 b"
proof -
  have "\<not> b < 16" using assms by simp
  then show ?thesis using byte_padded_hex2 [of b] by simp
qed

lemma apName_wide_bytes:
  assumes "16 \<le> m ! 3" "16 \<le> m ! 4" "16 \<le> m ! 5"
  shows "apName m = ''AGROFLOWSENSOR-'' @ hex2 (m ! 3) @ hex2 (m ! 4) @ hex2 (m ! 5)"
proof -
  have "apName m = toUpperCase ''AgroFlowSensor-'' @ toUpperCase (String_byte (m ! 3) HEX)
      @ toUpperCase (String_byte (m ! 4) HEX) @ toUpperCase (String_byte (m ! 5) HEX)"
    by (simp only: apName_def toUpperCase_def map_append)
  then show ?thesis
    by (simp only: toUpperCase_prefix String_byte_two_digits [OF assms(1)]
          String_byte_two_digits [OF assms(2)] String_byte_two_digits [OF assms(3)])
qed

subsection \<open>Scan response\<close>

lemma scan_loop_eq:
  "0 \<le> i \<Longrightarrow> n = int (length nets) \<Longrightarrow> length nets \<le> 256 \<Longrightarrow>
   scan_loop nets n i json = json @ concat (map (sep_entry nets) [nat i..<length nets])"
proof (induction nets n i json rule: scan_loop.induct)
  case (1 nets n i json)
  show ?case
  proof (cases "i < n")
    case False
    then show ?thesis using "1.prems" by (subst scan_loop.simps) simp
  next
    case True
    then have lt: "nat i < length nets" using "1.prems" by simp
    have suc: "Suc (nat i) = nat (i + 1)" using "1.prems" by simp
    have up: "[nat i..<length nets] = nat i # [nat (i + 1)..<length nets]"
      using upt_conv_Cons [OF lt] by (simp only: suc)
    have pos: "0 < nat i \<longleftrightarrow> 0 < i" by simp
    have "i < 256" using lt "1.prems" by simp
    then have at: "scan_at nets i = nets ! nat i"
      using "1.prems" by (simp add: scan_at_def)
    show ?thesis
    proof (cases "fst (scan_at nets i) = []")
      case e: True
      have "scan_loop nets n i json = scan_loop nets n (i + 1) json"
        using True e by (subst scan_loop.simps) simp
      also have "\<dots> = json @ concat (map (sep_entry nets) [nat (i + 1)..<length nets])"
        using "1.IH"(1) [OF True e] "1.prems" by simp
      finally have "scan_loop nets n i json =
          json @ concat (map (sep_entry nets) [nat (i + 1)..<length nets])" .
      moreover have "sep_entry nets (nat i) = []" using e by (simp add: sep_entry_def at)
      ultimately show ?thesis by (simp add: up)
    next
      case ne: False
      let ?j = "(if i > 0 then json @ '','' else json) @ scan_entry (scan_at nets i)"
      have "scan_loop nets n i json = scan_loop nets n (i + 1) ?j"
        using True ne by (subst scan_loop.simps) simp
      also have "\<dots> = ?j @ concat (map (sep_entry nets) [nat (i + 1)..<length nets])"
        using "1.IH"(2) [OF True ne] "1.prems" by simp
      finally have "scan_loop nets n i json =
          ?j @ concat (map (sep_entry nets) [nat (i + 1)..<length nets])" .
      moreover have "sep_entry nets (nat i) = (if i > 0 then '','' else []) @ scan_entry (scan_at nets i)"
        using ne pos by (simp add: sep_entry_def at)
      ultimately show ?thesis by (simp add: up)
    qed
  qed
qed

lemma join_commas_Cons:
  "join_commas (x # xs) = x @ concat (map (\<lambda>y. '','' @ y) xs)"
  by (induction xs arbitrary: x) simp_all

lemma concat_named:
  "concat (map (\<lambda>net. if named net then '','' @ scan_entry net else []) xs) =
   concat (map (\<lambda>y. '','' @ y) (map scan_entry (filter named xs)))"
  by (induction xs) simp_all

lemma later_entries:
  "concat (map (\<lambda>k. sep_entry (x # xs) (Suc k)) [0..<length xs]) =
   concat (map (\<lambda>y. '','' @ y) (map scan_entry (filter named xs)))"
proof -
  have "map (\<lambda>k. sep_entry (x # xs) (Suc k)) [0..<length xs] =
        map (\<lambda>net. if named net then '','' @ scan_entry net else []) (map ((!) xs) [0..<length xs])"
    by (simp add: sep_entry_def named_def)
  also have "\<dots> = map (\<lambda>net. if named net then '','' @ scan_entry net else []) xs"
    by (simp only: map_nth)
  finally show ?thesis
    by (simp only: concat_named)
qed

lemma handleScan_json_first_named:
  assumes "nets \<noteq> []" "fst (hd nets) \<noteq> []" "length nets \<le> 256"
  shows "handleScan_json nets = scan_json_spec nets"
proof -
  obtain x xs where n: "nets = x # xs" using assms(1) by (cases nets) auto
  have x: "named x" using assms(2) n by (simp add: named_def)
  have up: "[0..<length (x # xs)] = 0 # map Suc [0..<length xs]"
    by (simp add: upt_conv_Cons map_Suc_upt del: upt_Suc)
  have "handleScan_json nets = ''['' @ concat (map (sep_entry (x # xs)) [0..<length (x # xs)]) @ '']''"
    using scan_loop_eq [of 0 "int (length nets)" nets "''[''"] n assms(3)
    by (simp add: handleScan_json_def)
  also have "concat (map (sep_entry (x # xs)) [0..<length (x # xs)]) =
      scan_entry x @ concat (map (\<lambda>k. sep_entry (x # xs) (Suc k)) [0..<length xs])"
    using x by (simp only: up) (simp add: sep_entry_def named_def comp_def)
  also have "\<dots> = join_commas (map scan_entry (filter named nets))"
    using x by (simp add: later_entries join_commas_Cons n)
  finally show ?thesis by (simp add: scan_json_spec_def named_def [abs_def])
qed

lemma handleScan_json_none_named:
  assumes "\<forall>net\<in>set nets. fst net = []" "length nets \<le> 256"
  shows "handleScan_json nets = ''[]''" and "scan_json_spec nets = ''[]''"
proof -
  have "\<forall>k\<in>set [0..<length nets]. sep_entry nets k = []"
    using assms(1) by (simp add: sep_entry_def)
  then have "concat (map (sep_entry nets) [0..<length nets]) = []"
    by (simp del: set_upt)
  then show "handleScan_json nets = ''[]''"
    using scan_loop_eq [of 0 "int (length nets)" nets "''[''"] assms(2)
    by (simp add: handleScan_json_def)
  have "filter (\<lambda>net. fst net \<noteq> []) nets = []" using assms(1) by (simp add: filter_empty_conv)
  then show "scan_json_spec nets = ''[]''" by (simp add: scan_json_spec_def)
qed

subsection \<open>Frames: what each function leaves alone\<close>

lemma connect_loop_down:
  assumes "\<not> wifi_connected e (tick s)"
  shows "connect_loop e r s =
     (if r + 1 > 40 then
        clearConfigAndRestart
          (println (CHR 0x0A # ''Falha ao conectar. Credenciais podem estar erradas.'')
             (print ''.'' (delay 500 (next_tick (emit WifiStatus s)))))
      else connect_loop e (r + 1) (print ''.'' (delay 500 (next_tick (emit WifiStatus s)))))"
  using assms by (subst connect_loop.simps) (simp add: wifi_not_connected_def Let_def)

lemma connect_loop_up:
  assumes "wifi_connected e (tick s)"
  shows "connect_loop e r s = Returned (next_tick (emit WifiStatus s))"
  using assms by (subst connect_loop.simps) (simp add: wifi_not_connected_def)

lemma and_then_state:
  "state_of (and_then out f) = (case out of Returned s \<Rightarrow> state_of (f s) | _ \<Rightarrow> state_of out)"
  by (cases out) simp_all

lemma clear_trace:
  "trace (state_of (clearConfigAndRestart s)) =
     trace s @ [Println ''Limpando todas as configuracoes e reiniciando...'', PrefsClear, Delay 1000, Restart]"
  by (simp add: clearConfigAndRestart_def prim_defs Let_def)

lemma clear_uniqueId: "uniqueId (state_of (clearConfigAndRestart s)) = uniqueId s"
  by (simp add: clearConfigAndRestart_def prim_defs Let_def)


lemma connect_loop_filter:
  assumes "\<not> P WifiStatus" "\<And>n. \<not> P (Delay n)" "\<And>t. \<not> P (Print t)" "\<And>t. \<not> P (Println t)"
    "\<not> P PrefsClear" "\<not> P Restart"
  shows "filter P (trace (state_of (connect_loop e r s))) = filter P (trace s)"
proof (induction e r s rule: connect_loop.induct)
  case (1 e r s)
  show ?case
  proof (cases "wifi_connected e (tick s)")
    case True
    then show ?thesis using assms by (simp add: connect_loop_up prim_defs)
  next
    case False
    let ?s = "print ''.'' (delay 500 (next_tick (emit WifiStatus s)))"
    have s: "filter P (trace ?s) = filter P (trace s)" using assms by (simp add: prim_defs)
    show ?thesis
    proof (cases "r + 1 > 40")
      case True
      then show ?thesis using False assms
        by (simp add: connect_loop_down clear_trace prim_defs)
    next
      case big: False
      have "filter P (trace (state_of (connect_loop e (r + 1) ?s))) = filter P (trace ?s)"
        using "1.IH" [of "(\<not> wifi_connected e (tick s), next_tick (emit WifiStatus s))"
            "\<not> wifi_connected e (tick s)" "next_tick (emit WifiStatus s)"
            "delay 500 (next_tick (emit WifiStatus s))" ?s "r + 1"] False big
        by (simp add: wifi_not_connected_def)
      then show ?thesis using False big s by (simp add: connect_loop_down)
    qed
  qed
qed

lemma connect_loop_uniqueId: "uniqueId (state_of (connect_loop e r s)) = uniqueId s"
proof (induction e r s rule: connect_loop.induct)
  case (1 e r s)
  show ?case
  proof (cases "wifi_connected e (tick s)")
    case True
    then show ?thesis by (simp add: connect_loop_up prim_defs)
  next
    case False
    let ?s = "print ''.'' (delay 500 (next_tick (emit WifiStatus s)))"
    show ?thesis
    proof (cases "r + 1 > 40")
      case True
      then show ?thesis using False
        by (simp add: connect_loop_down clear_uniqueId prim_defs)
    next
      case big: False
      have "uniqueId (state_of (connect_loop e (r + 1) ?s)) = uniqueId ?s"
        using "1.IH" [of "(\<not> wifi_connected e (tick s), next_tick (emit WifiStatus s))"
            "\<not> wifi_connected e (tick s)" "next_tick (emit WifiStatus s)"
            "delay 500 (next_tick (emit WifiStatus s))" ?s "r + 1"] False big
        by (simp add: wifi_not_connected_def)
      then show ?thesis using False big by (simp add: connect_loop_down prim_defs)
    qed
  qed
qed

lemma dispatch_filter:
  assumes "\<And>c t b. \<not> P (HttpSend c t b)" "\<not> P WifiScan" "\<And>k v. \<not> P (PrefsPut k v)"
    "\<And>n. \<not> P (Delay n)" "\<not> P Restart"
  shows "filter P (trace (state_of (dispatch e r s))) = filter P (trace s)"
  using assms
  by (simp add: dispatch_def handleRoot_def handleScan_def handleSave_def prim_defs Let_def)

lemma dispatch_uniqueId: "uniqueId (state_of (dispatch e r s)) = uniqueId s"
  by (simp add: dispatch_def handleRoot_def handleScan_def handleSave_def prim_defs Let_def)

lemma portal_loop_filter:
  assumes "\<not> P DnsProcess" "\<And>c t b. \<not> P (HttpSend c t b)" "\<not> P WifiScan"
    "\<And>k v. \<not> P (PrefsPut k v)" "\<And>n. \<not> P (Delay n)" "\<not> P Restart"
  shows "filter P (trace (state_of (portal_loop n e s))) = filter P (trace s)"
proof (induction n arbitrary: s)
  case 0
  show ?case by simp
next
  case (Suc n)
  let ?s2 = "next_tick (emit DnsProcess s)"
  have s2: "filter P (trace ?s2) = filter P (trace s)" using assms by (simp add: prim_defs)
  show ?case
  proof (cases "http e (tick s)")
    case None
    then show ?thesis using Suc.IH [of "delay 1 ?s2"] assms
      by (simp add: prim_defs Let_def)
  next
    case (Some r)
    have d: "filter P (trace (state_of (dispatch e r ?s2))) = filter P (trace s)"
      using dispatch_filter [of P e r ?s2] assms s2 by simp
    show ?thesis
    proof (cases "dispatch e r ?s2")
      case (Returned s3)
      then show ?thesis using Some d Suc.IH [of "delay 1 s3"] assms
        by (simp add: prim_defs Let_def)
    next
      case (Restarted s3)
      then show ?thesis using Some d by (simp add: prim_defs Let_def)
    next
      case (Spinning s3)
      then show ?thesis using Some d by (simp add: prim_defs Let_def)
    qed
  qed
qed

lemma portal_loop_uniqueId: "uniqueId (state_of (portal_loop n e s)) = uniqueId s"
proof (induction n arbitrary: s)
  case 0
  show ?case by simp
next
  case (Suc n)
  let ?s2 = "next_tick (emit DnsProcess s)"
  show ?case
  proof (cases "http e (tick s)")
    case None
    then show ?thesis using Suc.IH [of "delay 1 ?s2"]
      by (simp add: prim_defs Let_def)
  next
    case (Some r)
    have d: "uniqueId (state_of (dispatch e r ?s2)) = uniqueId s"
      using dispatch_uniqueId [of e r ?s2] by (simp add: prim_defs)
    show ?thesis
    proof (cases "dispatch e r ?s2")
      case (Returned s3)
      then show ?thesis using Some d Suc.IH [of "delay 1 s3"]
        by (simp add: prim_defs Let_def)
    next
      case (Restarted s3)
      then show ?thesis using Some d by (simp add: prim_defs Let_def)
    next
      case (Spinning s3)
      then show ?thesis using Some d by (simp add: prim_defs Let_def)
    qed
  qed
qed

lemma startConfigurationPortal_eq:
  "startConfigurationPortal fuel e s = portal_loop fuel e (s\<lparr>trace := trace s @ portal_banner e\<rparr>)"
  by (simp add: startConfigurationPortal_def portal_banner_def prim_defs Let_def)

lemma startConfigurationPortal_filter:
  assumes "\<not> P DnsProcess" "\<And>c t b. \<not> P (HttpSend c t b)" "\<not> P WifiScan"
    "\<And>k v. \<not> P (PrefsPut k v)" "\<And>n. \<not> P (Delay n)" "\<not> P Restart"
  shows "filter P (trace (state_of (startConfigurationPortal fuel e s))) =
         filter P (trace s) @ filter P (portal_banner e)"
  using portal_loop_filter [of P fuel e, OF assms]
  by (simp add: startConfigurationPortal_eq)

lemma startConfigurationPortal_uniqueId:
  "uniqueId (state_of (startConfigurationPortal fuel e s)) = uniqueId s"
  by (simp add: startConfigurationPortal_eq portal_loop_uniqueId)

subsection \<open>The three ways through \<open>setup()\<close>\<close>

lemma boot_pin_low:
  assumes "pin_low e 0"
  shows "boot fuel e flash =
     clearConfigAndRestart (println ''Reset fisico detectado na inicializacao!'' (after_prelude e flash))"
  using assms
  by (simp add: boot_def setup_main_def power_on_def reset_pin_is_low_def prim_defs Let_def
        after_prelude_def setup_prelude_def clearConfigAndRestart_def)

lemma boot_unconfigured:
  assumes "\<not> pin_low e 0"
    and "prefs_getString ''ssid'' [] (prefs_begin e ''sensor-config'' (after_prelude e flash)) = []"
  shows "boot fuel e flash =
     startConfigurationPortal fuel e (prefs_begin e ''sensor-config'' (after_prelude e flash))"
proof -
  have "setup_main fuel e (power_on flash) =
     (let s13 = prefs_begin e ''sensor-config'' (after_prelude e flash);
          ssid = prefs_getString ''ssid'' [] s13
      in if ssid = [] then startConfigurationPortal fuel e s13
         else
           (let s14 = println ''Configuracao encontrada. Tentando conectar a rede...'' s13;
                password = prefs_getString ''password'' [] s14;
                s15 = emit (WifiMode ''WIFI_STA'') s14;
                s16 = emit (WifiBegin ssid password) s15;
                s17 = s16\<lparr>commandTopic := command_topic_of (uniqueId s16)\<rparr>
            in and_then (connect_loop e 0 s17)
                 (\<lambda>s18.
                    let s19 = print (CHR 0x0A # ''WiFi conectado! IP: '') s18;
                        s20 = println (local_ip e) s19;
                        s21 = println ''Sincronizando relogio com servidor NTP...'' s20;
                        s22 = emit ConfigTime s21;
                        s23 = emit (MqttSetServer MQTT_HOST MQTT_PORT) s22
                    in Returned (emit MqttSetCallback s23))))"
    using assms(1)
    by (simp add: setup_main_def power_on_def reset_pin_is_low_def emit_def next_tick_def
          print_def println_def delay_def Let_def after_prelude_def setup_prelude_def)
  then show ?thesis using assms(2) by (simp add: boot_def Let_def)
qed

lemma boot_configured:
  assumes "\<not> pin_low e 0" "begin_ok e" "stored flash ''ssid'' \<noteq> []"
  shows "boot fuel e flash =
     and_then (connect_loop e 0 (joining e flash))
       (\<lambda>s. Returned (s\<lparr>trace := trace s @ online_events e\<rparr>))"
  using assms
  by (simp add: boot_def setup_main_def power_on_def reset_pin_is_low_def prim_defs Let_def
        setup_prelude_def joining_def join_events_def online_events_def stored_def
        split: option.splits)

lemma boot_unconfigured_cases:
  assumes "\<not> pin_low e 0" "\<not> begin_ok e \<or> stored flash ''ssid'' = []"
  shows "boot fuel e flash =
     startConfigurationPortal fuel e (prefs_begin e ''sensor-config'' (after_prelude e flash))"
proof (rule boot_unconfigured [OF assms(1)])
  show "prefs_getString ''ssid'' [] (prefs_begin e ''sensor-config'' (after_prelude e flash)) = []"
    using assms(2) by (auto simp: prim_defs after_prelude_def stored_def split: option.splits)
qed

subsection \<open>The main loop and the broker\<close>



lemma loop_wifi_lost:
  assumes "\<not> pin_low e (tick s)" "\<not> wifi_connected e (Suc (tick s))"
  shows "loop fuel e s =
     Restarted (s\<lparr>tick := Suc (Suc (tick s)),
                  trace := trace s @ [DigitalRead RESET_PIN_1, WifiStatus,
                    Println ''Conexao WiFi perdida. Reiniciando para tentar reconectar...'',
                    Delay 1000, Restart]\<rparr>)"
  using assms
  by (simp add: loop_def reset_pin_is_low_def wifi_not_connected_def prim_defs Let_def)






subsection \<open>Connect loop\<close>

lemma connect_loop_never:
  assumes never: "\<forall>t. \<not> wifi_connected e t"
  shows "r = 40 - int k \<Longrightarrow>
     \<exists>s'. connect_loop e r s = Restarted s' \<and>
          trace s' = trace s @ concat (replicate (Suc k) poll_round) @ give_up_events \<and>
          nvs s' = (if prefs_started s then Map.empty else nvs s)"
proof (induction k arbitrary: r s)
  case 0
  then show ?case using never
    by (simp add: connect_loop_down clearConfigAndRestart_def prim_defs poll_round_def
          give_up_events_def Let_def)
next
  case (Suc k)
  let ?s = "print ''.'' (delay 500 (next_tick (emit WifiStatus s)))"
  have r: "r + 1 = 40 - int k" using Suc.prems by simp
  from Suc.IH [OF r, of ?s] obtain s' where
    s': "connect_loop e (r + 1) ?s = Restarted s'"
        "trace s' = trace ?s @ concat (replicate (Suc k) poll_round) @ give_up_events"
        "nvs s' = (if prefs_started ?s then Map.empty else nvs ?s)"
    by blast
  have "connect_loop e r s = connect_loop e (r + 1) ?s"
    using never r by (simp add: connect_loop_down)
  then show ?case using s'
    by (simp add: prim_defs poll_round_def)
qed

lemma count_event_Nil [simp]: "count_event ev [] = 0"
  by (simp add: count_event_def)

lemma count_event_append [simp]:
  "count_event ev (xs @ ys) = count_event ev xs + count_event ev ys"
  by (simp add: count_event_def)

lemma count_event_rounds: "count_event ev (concat (replicate n xs)) = n * count_event ev xs"
  by (induction n) simp_all

lemma count_event_Cons [simp]:
  "count_event ev (x # xs) = (if ev = x then 1 else 0) + count_event ev xs"
  by (simp add: count_event_def)

text \<open>
  C2 (amended). If the join never succeeds, the connect loop of \<open>setup()\<close> polls the
  connection status exactly 41 times, each poll followed by a delay of 500 ms and a dot on
  the serial port, and then takes the clear-configuration-and-restart path: it never
  escalates after fewer polls and never polls more often. The restart leaves an opened
  store empty.
\<close>

theorem connect_loop_gives_up_after_41_polls:
  assumes "\<forall>t. \<not> wifi_connected e t"
  shows "\<exists>s'. connect_loop e 0 s = Restarted s' \<and>
     trace s' = trace s @ concat (replicate 41 poll_round) @ give_up_events \<and>
     count_event WifiStatus (trace s') = count_event WifiStatus (trace s) + 41 \<and>
     count_event (Delay 500) (trace s') = count_event (Delay 500) (trace s) + 41 \<and>
     nvs s' = (if prefs_started s then Map.empty else nvs s)"
proof -
  from connect_loop_never [OF assms, of 0 40 s] obtain s' where
    s': "connect_loop e 0 s = Restarted s'"
        "trace s' = trace s @ concat (replicate 41 poll_round) @ give_up_events"
        "nvs s' = (if prefs_started s then Map.empty else nvs s)"
    by auto
  have "count_event WifiStatus (trace s') = count_event WifiStatus (trace s) + 41"
    by (simp add: s'(2) count_event_rounds) (simp add: poll_round_def give_up_events_def)
  moreover have "count_event (Delay 500) (trace s') = count_event (Delay 500) (trace s) + 41"
    by (simp add: s'(2) count_event_rounds) (simp add: poll_round_def give_up_events_def)
  ultimately show ?thesis using s' by blast
qed

text \<open>The hypothesis of C2 holds on the bench when the network is down.\<close>

theorem connect_loop_gives_up_after_41_polls_witness:
  "(\<forall>t. \<not> wifi_connected env_wifi_down t) \<and>
   (\<exists>s'. connect_loop env_wifi_down 0 (power_on flash_home) = Restarted s' \<and>
        trace s' = concat (replicate 41 poll_round) @ give_up_events \<and>
        count_event WifiStatus (trace s') = 41)"
proof -
  have h: "\<forall>t. \<not> wifi_connected env_wifi_down t"
    by (simp add: env_wifi_down_def)
  show ?thesis
    using h connect_loop_gives_up_after_41_polls [OF h, of "power_on flash_home"]
    by (auto simp: power_on_def)
qed

lemma stored_flash_home [simp]:
  "stored flash_home ''ssid'' = ''Home''" "stored flash_home ''password'' = ''secret''"
  by (simp_all add: stored_def flash_home_def cstr_def)

text \<open>
  C2 as stated, with exactly 40 polling attempts, fails: a boot with stored credentials
  and a network that never comes up polls the status 41 times, and sleeps 500 ms 41
  times, before it restarts.
\<close>

theorem connect_loop_polls_41_times_not_40:
  "count_event WifiStatus (trace (state_of (boot 0 env_wifi_down flash_home))) = 41 \<and>
   count_event (Delay 500) (trace (state_of (boot 0 env_wifi_down flash_home))) = 41"
proof -
  have never: "\<forall>t. \<not> wifi_connected env_wifi_down t"
    by (simp add: env_wifi_down_def)
  have b: "boot 0 env_wifi_down flash_home =
      and_then (connect_loop env_wifi_down 0 (joining env_wifi_down flash_home))
        (\<lambda>s. Returned (s\<lparr>trace := trace s @ online_events env_wifi_down\<rparr>))"
    by (rule boot_configured) (simp_all add: env_wifi_down_def bench_env_def)
  from connect_loop_never [OF never, of 0 40 "joining env_wifi_down flash_home"] obtain s' where
    s': "connect_loop env_wifi_down 0 (joining env_wifi_down flash_home) = Restarted s'"
        "trace s' = trace (joining env_wifi_down flash_home)
            @ concat (replicate 41 poll_round) @ give_up_events"
    by auto
  have st: "state_of (boot 0 env_wifi_down flash_home) = s'"
    by (simp add: b s'(1))
  show ?thesis
    by (simp add: st s'(2) count_event_rounds)
       (simp add: joining_def setup_prelude_def join_events_def poll_round_def give_up_events_def)
qed

subsection \<open>Device identity\<close>

lemma boot_uniqueId: "uniqueId (state_of (boot fuel e flash)) = derive_identity (mac e) []"
proof (cases "pin_low e 0")
  case True
  then show ?thesis
    by (simp add: boot_pin_low clear_uniqueId prim_defs after_prelude_def)
next
  case False
  show ?thesis
  proof (cases "\<not> begin_ok e \<or> stored flash ''ssid'' = []")
    case True
    then show ?thesis using False
      by (simp add: boot_unconfigured_cases startConfigurationPortal_uniqueId prim_defs
            after_prelude_def)
  next
    case c: False
    have b: "boot fuel e flash =
        and_then (connect_loop e 0 (joining e flash))
          (\<lambda>s. Returned (s\<lparr>trace := trace s @ online_events e\<rparr>))"
      using False c by (intro boot_configured) simp_all
    have u: "uniqueId (state_of (connect_loop e 0 (joining e flash))) = derive_identity (mac e) []"
      by (simp add: connect_loop_uniqueId joining_def)
    show ?thesis using u
      by (cases "connect_loop e 0 (joining e flash)") (simp_all add: b)
  qed
qed

text \<open>
  C8. For every 6-byte hardware address, the identity that a boot derives depends on
  the address alone (not on the stored configuration, nor on anything else the device
  reads, nor on how long it runs): it is each byte of the address as two uppercase
  hexadecimal digits, zero-padded, in order, hence 12 characters, all of them uppercase
  hexadecimal digits.
\<close>

theorem uniqueId_twelve_uppercase_hex:
  assumes "length (mac e) = 6"
  shows "uniqueId (state_of (boot fuel e flash)) = concat (map hex2 (mac e)) \<and>
         length (uniqueId (state_of (boot fuel e flash))) = 12 \<and>
         set (uniqueId (state_of (boot fuel e flash))) \<subseteq> set HEXDIGITS"
proof -
  have "uniqueId (state_of (boot fuel e flash)) = concat (map hex2 (mac e))"
    using derive_identity_eq [OF assms, of "[]"] by (simp add: boot_uniqueId toUpperCase_def)
  then show ?thesis
    using concat_hex2_length [of "mac e"] concat_hex2_chars [of "mac e"] assms by simp
qed

lemma hex2_bench: "concat (map hex2 [0x24, 0x6F, 0x28, 0x0A, 0x0B, 0x0C]) = ''246F280A0B0C''"
  by code_simp

text \<open>On the bench, with and without stored credentials.\<close>

theorem uniqueId_twelve_uppercase_hex_witness:
  "length (mac bench_env) = 6 \<and>
   uniqueId (state_of (boot 0 bench_env flash_home)) = ''246F280A0B0C'' \<and>
   uniqueId (state_of (boot 0 bench_env Map.empty)) = ''246F280A0B0C''"
proof -
  have m: "mac bench_env = [0x24, 0x6F, 0x28, 0x0A, 0x0B, 0x0C]" by (simp add: bench_env_def)
  have l: "length (mac bench_env) = 6" by (simp add: m)
  have h: "concat (map hex2 (mac bench_env)) = ''246F280A0B0C''"
    by (simp only: m hex2_bench)
  show ?thesis
    using l uniqueId_twelve_uppercase_hex [OF l, of 0 flash_home]
      uniqueId_twelve_uppercase_hex [OF l, of 0 Map.empty]
    by (simp only: h)
qed

subsection \<open>Loss of connectivity\<close>

lemma list_ex_filter: "list_ex P xs \<longleftrightarrow> filter P xs \<noteq> []"
  by (induction xs) simp_all

lemma boot_configured_mode:
  assumes "\<not> pin_low e 0" "begin_ok e" "stored flash ''ssid'' \<noteq> []"
  shows "entered_Connecting (boot fuel e flash)" "\<not> entered_PortalActive (boot fuel e flash)"
proof -
  let ?out = "connect_loop e 0 (joining e flash)"
  have b: "boot fuel e flash =
      and_then ?out (\<lambda>s. Returned (s\<lparr>trace := trace s @ online_events e\<rparr>))"
    using assms by (rule boot_configured)
  have w: "filter is_wifi_begin (trace (state_of ?out)) =
      [WifiBegin (stored flash ''ssid'') (stored flash ''password'')]"
    by (simp add: connect_loop_filter)
       (simp add: joining_def setup_prelude_def join_events_def)
  have a: "filter is_softap (trace (state_of ?out)) = []"
    by (simp add: connect_loop_filter)
       (simp add: joining_def setup_prelude_def join_events_def)
  show "entered_Connecting (boot fuel e flash)"
    using w by (cases ?out) (simp_all add: b entered_Connecting_def list_ex_filter online_events_def)
  show "\<not> entered_PortalActive (boot fuel e flash)"
    using a by (cases ?out) (simp_all add: b entered_PortalActive_def list_ex_filter online_events_def)
qed

text \<open>
  C3 (amended). When an iteration of the main loop finds the reset pin released and the
  network connection lost, the device logs the loss, waits one second and restarts
  without clearing the store: the stored credentials are unchanged, so a next boot that
  finds the reset pin released and can open the store starts the join again (state
  Connecting) and does not start the portal.
\<close>

theorem wifi_loss_restarts_keeping_credentials:
  assumes "\<not> pin_low e (tick s)" "\<not> wifi_connected e (Suc (tick s))"
  shows "\<exists>s'. loop fuel e s = Restarted s' \<and>
     trace s' = trace s @ [DigitalRead RESET_PIN_1, WifiStatus,
        Println ''Conexao WiFi perdida. Reiniciando para tentar reconectar...'',
        Delay 1000, Restart] \<and>
     nvs s' = nvs s \<and>
     (stored (nvs s) ''ssid'' \<noteq> [] \<and> \<not> pin_low e2 0 \<and> begin_ok e2 \<longrightarrow>
        entered_Connecting (boot fuel2 e2 (nvs s')) \<and>
        \<not> entered_PortalActive (boot fuel2 e2 (nvs s')))"
  using loop_wifi_lost [OF assms, of fuel] boot_configured_mode [of e2 "nvs s" fuel2]
  by simp

lemma boot_bench_home:
  assumes "\<not> pin_low e 0" "begin_ok e" "wifi_connected e 1"
  shows "boot fuel e flash_home =
     Returned ((joining e flash_home)\<lparr>tick := 2,
        trace := trace (joining e flash_home) @ WifiStatus # online_events e\<rparr>)"
proof -
  have "connect_loop e 0 (joining e flash_home) = Returned (next_tick (emit WifiStatus (joining e flash_home)))"
    using assms(3) by (intro connect_loop_up) (simp add: joining_def)
  then show ?thesis
    using boot_configured [of e flash_home fuel] assms
    by (simp add: prim_defs joining_def)
qed

text \<open>
  C3 as stated fails: after a boot with the credentials \<open>Home\<close>/\<open>secret\<close> and the loss
  of the network, the iteration of the main loop restarts the device with the store
  never cleared and the network name still stored, and the next boot is Connecting, not
  PortalActive.
\<close>

theorem wifi_loss_does_not_clear_store:
  "nvs (state_of (loop 0 env_wifi_lost (state_of (boot 0 env_wifi_lost flash_home)))) ''ssid''
     = Some ''Home'' \<and>
   count_event PrefsClear
     (trace (state_of (loop 0 env_wifi_lost (state_of (boot 0 env_wifi_lost flash_home))))) = 0 \<and>
   entered_Connecting
     (boot 0 bench_env
        (nvs (state_of (loop 0 env_wifi_lost (state_of (boot 0 env_wifi_lost flash_home)))))) \<and>
   \<not> entered_PortalActive
     (boot 0 bench_env
        (nvs (state_of (loop 0 env_wifi_lost (state_of (boot 0 env_wifi_lost flash_home))))))"
proof -
  let ?s = "state_of (boot 0 env_wifi_lost flash_home)"
  have b: "boot 0 env_wifi_lost flash_home =
     Returned ((joining env_wifi_lost flash_home)\<lparr>tick := 2,
        trace := trace (joining env_wifi_lost flash_home) @ WifiStatus # online_events env_wifi_lost\<rparr>)"
    by (rule boot_bench_home) (simp_all add: env_wifi_lost_def bench_env_def)
  have t: "tick ?s = 2" and n: "nvs ?s = flash_home"
    by (simp_all add: b joining_def)
  have l: "loop 0 env_wifi_lost ?s =
     Restarted (?s\<lparr>tick := Suc (Suc (tick ?s)),
                  trace := trace ?s @ [DigitalRead RESET_PIN_1, WifiStatus,
                    Println ''Conexao WiFi perdida. Reiniciando para tentar reconectar...'',
                    Delay 1000, Restart]\<rparr>)"
    by (rule loop_wifi_lost; simp only: t) (simp_all add: env_wifi_lost_def bench_env_def)
  have n': "nvs (state_of (loop 0 env_wifi_lost ?s)) = flash_home"
    by (simp add: l n)
  have c: "count_event PrefsClear (trace (state_of (loop 0 env_wifi_lost ?s))) = 0"
    by (simp add: l) (simp add: b joining_def setup_prelude_def join_events_def online_events_def)
  have m: "entered_Connecting (boot 0 bench_env flash_home)"
          "\<not> entered_PortalActive (boot 0 bench_env flash_home)"
    by (rule boot_configured_mode; simp add: bench_env_def)+
  show ?thesis using c m by (simp add: n') (simp add: flash_home_def)
qed

text \<open>The hypotheses of C3 hold on the bench when the network is lost after the boot.\<close>

theorem wifi_loss_restarts_keeping_credentials_witness:
  "\<not> pin_low env_wifi_lost (tick (state_of (boot 0 env_wifi_lost flash_home))) \<and>
   \<not> wifi_connected env_wifi_lost (Suc (tick (state_of (boot 0 env_wifi_lost flash_home)))) \<and>
   stored (nvs (state_of (boot 0 env_wifi_lost flash_home))) ''ssid'' \<noteq> [] \<and>
   \<not> pin_low bench_env 0 \<and> begin_ok bench_env \<and>
   (\<exists>s'. loop 0 env_wifi_lost (state_of (boot 0 env_wifi_lost flash_home)) = Restarted s' \<and>
      nvs s' = nvs (state_of (boot 0 env_wifi_lost flash_home)) \<and>
      entered_Connecting (boot 0 bench_env (nvs s')) \<and>
      \<not> entered_PortalActive (boot 0 bench_env (nvs s')))"
proof -
  let ?s = "state_of (boot 0 env_wifi_lost flash_home)"
  have b: "boot 0 env_wifi_lost flash_home =
     Returned ((joining env_wifi_lost flash_home)\<lparr>tick := 2,
        trace := trace (joining env_wifi_lost flash_home) @ WifiStatus # online_events env_wifi_lost\<rparr>)"
    by (rule boot_bench_home) (simp_all add: env_wifi_lost_def bench_env_def)
  have t: "tick ?s = 2" and n: "nvs ?s = flash_home"
    by (simp_all add: b joining_def)
  have h1: "\<not> pin_low env_wifi_lost (tick ?s)"
    and h2: "\<not> wifi_connected env_wifi_lost (Suc (tick ?s))"
    by (simp_all only: t) (simp_all add: env_wifi_lost_def bench_env_def)
  have h3: "stored (nvs ?s) ''ssid'' \<noteq> []" by (simp add: n)
  have h4: "\<not> pin_low bench_env 0" "begin_ok bench_env" by (simp_all add: bench_env_def)
  show ?thesis
    using wifi_loss_restarts_keeping_credentials [OF h1 h2, of 0 bench_env 0] h1 h2 h3 h4
    by auto
qed

subsection \<open>Scan response and access-point name at concrete inputs\<close>

lemma scan_hidden_first_json:
  \<open>handleScan_json [([], - 50), (''A'', - 40)] = ''[,{"ssid":"A","rssi":-40}]''\<close>
  \<open>scan_json_spec [([], - 50), (''A'', - 40)] = ''[{"ssid":"A","rssi":-40}]''\<close>
  by code_simp+

text \<open>
  C1. The claim asks for a well-formed JSON array for every scan, in particular when
  the first network of the scan has an empty name. The handler writes the separating
  comma whenever the index is above 0, also when nothing has been written yet: for the
  scan of a hidden network followed by the network \<open>A\<close> the body sent starts with
  \<open>[,\<close>, where the specification's rendering of the same scan is
  \<open>[{"ssid":"A","rssi":-40}]\<close>. (\<open>handleScan_json_first_named\<close> and
  \<open>handleScan_json_none_named\<close> above show that, for a scan of at most 256
  networks, the handler agrees with the specification when the first network is named
  or no network is.)
\<close>

theorem handleScan_leading_comma:
  \<open>scan env_hidden_first 0 = [([], - 50), (''A'', - 40)] \<and>
   trace (state_of (handleScan env_hidden_first (power_on Map.empty))) =
     [WifiScan, HttpSend 200 ''application/json'' (Body ''[,{"ssid":"A","rssi":-40}]'')] \<and>
   scan_json_spec (scan env_hidden_first 0) = ''[{"ssid":"A","rssi":-40}]''\<close>
proof -
  have sc: "scan env_hidden_first 0 = [([], - 50), (''A'', - 40)]"
    by (simp add: env_hidden_first_def)
  have "trace (state_of (handleScan env_hidden_first (power_on Map.empty))) =
      [WifiScan, HttpSend 200 ''application/json''
         (Body (handleScan_json (scan env_hidden_first 0)))]"
    by (simp add: handleScan_def prim_defs power_on_def Let_def)
  then show ?thesis
    by (simp only: sc scan_hidden_first_json)
qed

text \<open>
  C4. The claim asks for the prefix, a dash and exactly six hexadecimal characters, two
  per byte. \<open>startConfigurationPortal\<close> renders the last three bytes without the
  leading zero that \<open>setup()\<close> adds for the identity: for the address
  \<open>24:6F:28:0A:0B:0C\<close> the name ends in \<open>ABC\<close>, three characters, where two digits
  per byte give \<open>0A0B0C\<close> (as the identity of the same device does). The prefix is
  uppercased along with the digits. (\<open>apName_wide_bytes\<close> above shows that the name has
  the six digits when each of the three bytes is at least 16.)
\<close>

theorem apName_drops_leading_zeros:
  "apName [0x24, 0x6F, 0x28, 0x0A, 0x0B, 0x0C] = ''AGROFLOWSENSOR-ABC'' \<and>
   hex2 0x0A @ hex2 0x0B @ hex2 0x0C = ''0A0B0C'' \<and>
   derive_identity [0x24, 0x6F, 0x28, 0x0A, 0x0B, 0x0C] [] = ''246F280A0B0C''"
  by code_simp

subsection \<open>Telemetry cycle\<close>

lemma publishSensorData_trace:
  "trace (publishSensorData e s) = trace s @ cycle_events e s"
  by (simp add: publishSensorData_def readSensorData_def getUnixTimestampMillis_def prim_defs
        Let_def cycle_events_def sample_events_def cycle_reading_def cycle_timestamp_def)


lemma humidityPercent_range: "0 \<le> humidityPercent r raw \<and> humidityPercent r raw \<le> 100"
  using constrain_range by (simp add: humidityPercent_def Let_def)

text \<open>
  C5 (amended). Each telemetry cycle first samples the sensor and prints the raw value,
  and only then asks for the wall-clock time. If the time is unavailable, or the
  timestamp computed from it is 0, the cycle ends there without publishing: apart from
  the sample and the time query it has only written to the serial port. Otherwise it
  publishes one reading on the telemetry topic. So whenever a cycle publishes, the time
  was available and the reading carries a timestamp greater than 0; its humidity is
  between 0 and 100.
\<close>

theorem publishSensorData_samples_then_checks_time:
  "trace (publishSensorData e s) =
     trace s @
       [AnalogRead SENSOR_PIN, Print ''Valor bruto do sensor: '',
        Println (String_int (uint (adc e (tick s)))), GetLocalTime] @
       (if \<not> local_time_ok e (Suc (tick s)) then
          [Println ''Falha ao obter o tempo'', Println ''Aguardando sincronizacao de tempo...'']
        else if cycle_timestamp e s = 0 then
          [TimeRead, Println ''Aguardando sincronizacao de tempo...'']
        else
          [TimeRead, MqttPublish MQTT_PUB_TOPIC (cycle_reading e s),
           Print ''Mensagem publicada: '', PrintlnDoc (cycle_reading e s)]) \<and>
   (list_ex is_publish (drop (length (trace s)) (trace (publishSensorData e s))) \<longrightarrow>
      local_time_ok e (Suc (tick s)) \<and> 0 < timestamp (cycle_reading e s)) \<and>
   0 \<le> humidity (cycle_reading e s) \<and> humidity (cycle_reading e s) \<le> 100"
proof (intro conjI)
  show "trace (publishSensorData e s) =
     trace s @
       [AnalogRead SENSOR_PIN, Print ''Valor bruto do sensor: '',
        Println (String_int (uint (adc e (tick s)))), GetLocalTime] @
       (if \<not> local_time_ok e (Suc (tick s)) then
          [Println ''Falha ao obter o tempo'', Println ''Aguardando sincronizacao de tempo...'']
        else if cycle_timestamp e s = 0 then
          [TimeRead, Println ''Aguardando sincronizacao de tempo...'']
        else
          [TimeRead, MqttPublish MQTT_PUB_TOPIC (cycle_reading e s),
           Print ''Mensagem publicada: '', PrintlnDoc (cycle_reading e s)])"
    by (simp add: publishSensorData_trace cycle_events_def sample_events_def)
  show "list_ex is_publish (drop (length (trace s)) (trace (publishSensorData e s))) \<longrightarrow>
      local_time_ok e (Suc (tick s)) \<and> 0 < timestamp (cycle_reading e s)"
    by (auto simp: publishSensorData_trace cycle_events_def sample_events_def cycle_reading_def
        word_greater_zero_iff split: if_splits)
  show "0 \<le> humidity (cycle_reading e s)" "humidity (cycle_reading e s) \<le> 100"
    using humidityPercent_range [of "map_rounding e" "adc e (tick s)"]
    by (simp_all add: cycle_reading_def)
qed

lemma raw_2100: "String_int (uint (2100 :: 16 word)) = ''2100''"
  by code_simp

text \<open>
  C5 as stated fails: with the clock not yet synchronised, the cycle has sampled the
  sensor (its first event is the read of the analog pin) before it learns that the time
  is unavailable. Nothing is published.
\<close>

theorem publishSensorData_samples_without_time:
  "trace (publishSensorData env_no_time (power_on flash_home)) =
     [AnalogRead 34, Print ''Valor bruto do sensor: '', Println ''2100'', GetLocalTime,
      Println ''Falha ao obter o tempo'', Println ''Aguardando sincronizacao de tempo...'']"
proof -
  have a: "adc env_no_time 0 = 2100" "\<not> local_time_ok env_no_time (Suc 0)"
    by (simp_all add: env_no_time_def bench_env_def)
  have "cycle_events env_no_time (power_on flash_home) =
     [AnalogRead 34, Print ''Valor bruto do sensor: '', Println (String_int (uint (2100 :: 16 word))),
      GetLocalTime,
      Println ''Falha ao obter o tempo'', Println ''Aguardando sincronizacao de tempo...'']"
    using a by (simp add: cycle_events_def sample_events_def power_on_def SENSOR_PIN_def)
  then show ?thesis
    by (simp only: publishSensorData_trace raw_2100) (simp add: power_on_def)
qed

text \<open>On the bench the cycle publishes, with the timestamp \<open>1700000000000\<close>.\<close>

theorem publishSensorData_samples_then_checks_time_witness:
  "list_ex is_publish
     (drop (length (trace (power_on flash_home)))
        (trace (publishSensorData bench_env (power_on flash_home)))) \<and>
   local_time_ok bench_env (Suc (tick (power_on flash_home))) \<and>
   timestamp (cycle_reading bench_env (power_on flash_home)) = 1700000000000 \<and>
   humidity (cycle_reading bench_env (power_on flash_home)) = 50"
proof -
  have h: "humidityPercent False 2100 = 50" by code_simp
  have ts: "cycle_timestamp bench_env (power_on flash_home) = 1700000000000"
    by (simp add: cycle_timestamp_def bench_env_def)
  have ok: "local_time_ok bench_env (Suc (tick (power_on flash_home)))"
    by (simp add: bench_env_def)
  have p: "list_ex is_publish
     (drop (length (trace (power_on flash_home)))
        (trace (publishSensorData bench_env (power_on flash_home))))"
    using ok by (simp add: publishSensorData_trace cycle_events_def ts)
  have hm: "humidity (cycle_reading bench_env (power_on flash_home)) = 50"
    by (simp add: cycle_reading_def) (simp add: bench_env_def power_on_def h)
  show ?thesis
    using publishSensorData_samples_then_checks_time [of bench_env "power_on flash_home"] p ts hm
    by (simp add: cycle_reading_def)
qed

subsection \<open>Reset pin and broker reconnection\<close>






















subsection \<open>An empty network name\<close>



lemma boot_unconfigured_mode:
  assumes "\<not> begin_ok e \<or> stored flash ''ssid'' = []"
  shows "\<not> entered_Connecting (boot fuel e flash)"
    and "\<not> pin_low e 0 \<Longrightarrow> entered_PortalActive (boot fuel e flash)"
proof -
  let ?s = "prefs_begin e ''sensor-config'' (after_prelude e flash)"
  have w: "filter is_wifi_begin (trace (state_of (startConfigurationPortal fuel e ?s))) =
        filter is_wifi_begin (trace ?s) @ filter is_wifi_begin (portal_banner e)"
    by (rule startConfigurationPortal_filter) simp_all
  have a: "filter is_softap (trace (state_of (startConfigurationPortal fuel e ?s))) =
        filter is_softap (trace ?s) @ filter is_softap (portal_banner e)"
    by (rule startConfigurationPortal_filter) simp_all
  show "\<not> entered_Connecting (boot fuel e flash)"
  proof (cases "pin_low e 0")
    case True
    then show ?thesis
      by (simp add: boot_pin_low clear_trace entered_Connecting_def list_ex_filter prim_defs
            after_prelude_def setup_prelude_def)
  next
    case False
    then show ?thesis using assms w
      by (simp add: boot_unconfigured_cases entered_Connecting_def list_ex_filter)
         (simp add: prim_defs after_prelude_def setup_prelude_def portal_banner_def)
  qed
  show "entered_PortalActive (boot fuel e flash)" if "\<not> pin_low e 0"
    using that assms a
    by (simp add: boot_unconfigured_cases entered_PortalActive_def list_ex_filter)
       (simp add: portal_banner_def)
qed


lemma cstr_idem: "cstr (cstr v) = cstr v"
  by (simp add: cstr_def takeWhile_idem)








subsection \<open>Failure to open the store\<close>

lemma same_effects_trace:
  "same_effects a b \<Longrightarrow> trace (state_of a) = trace (state_of b)"
  by (cases a; cases b) simp_all

lemma dispatch_same:
  assumes "tick s1 = tick s2" "trace s1 = trace s2" "scan e1 = scan e2"
  shows "same_effects (dispatch e1 r s1) (dispatch e2 r s2)"
  using assms
  by (simp add: dispatch_def handleRoot_def handleScan_def handleSave_def prim_defs Let_def)

lemma portal_loop_same:
  assumes "http e1 = http e2" "scan e1 = scan e2"
  shows "tick s1 = tick s2 \<Longrightarrow> trace s1 = trace s2 \<Longrightarrow>
         same_effects (portal_loop n e1 s1) (portal_loop n e2 s2)"
proof (induction n arbitrary: s1 s2)
  case 0
  then show ?case by simp
next
  case (Suc n)
  let ?a = "next_tick (emit DnsProcess s1)" and ?b = "next_tick (emit DnsProcess s2)"
  have ab: "tick ?a = tick ?b" "trace ?a = trace ?b"
    using Suc.prems by (simp_all add: prim_defs)
  show ?case
  proof (cases "http e2 (tick s2)")
    case None
    have "same_effects (portal_loop n e1 (delay 1 ?a)) (portal_loop n e2 (delay 1 ?b))"
      using ab by (intro Suc.IH) (simp_all add: prim_defs)
    then show ?thesis using None assms(1) Suc.prems
      by (simp add: Let_def emit_def)
  next
    case (Some r)
    have d: "same_effects (dispatch e1 r ?a) (dispatch e2 r ?b)"
      using ab assms(2) by (rule dispatch_same)
    have step: "portal_loop (Suc n) e1 s1 =
        and_then (dispatch e1 r ?a) (\<lambda>s3. portal_loop n e1 (delay 1 s3))"
      "portal_loop (Suc n) e2 s2 =
        and_then (dispatch e2 r ?b) (\<lambda>s3. portal_loop n e2 (delay 1 s3))"
      using Some assms(1) Suc.prems by (simp_all add: Let_def emit_def)
    show ?thesis
    proof (cases "dispatch e1 r ?a")
      case (Returned a')
      then obtain b' where b': "dispatch e2 r ?b = Returned b'" "tick a' = tick b'" "trace a' = trace b'"
        using d by (cases "dispatch e2 r ?b") simp_all
      have "same_effects (portal_loop n e1 (delay 1 a')) (portal_loop n e2 (delay 1 b'))"
        using b' by (intro Suc.IH) (simp_all add: prim_defs)
      then show ?thesis by (simp only: step Returned b'(1) and_then.simps)
    next
      case (Restarted a')
      then show ?thesis using d
        by (cases "dispatch e2 r ?b") (simp_all only: step and_then.simps same_effects.simps)
    next
      case (Spinning a')
      then show ?thesis using d
        by (cases "dispatch e2 r ?b") (simp_all only: step and_then.simps same_effects.simps)
    qed
  qed
qed

lemma boot_store_failure_same:
  assumes "\<not> begin_ok e"
  shows "trace (state_of (boot fuel e flash)) =
         trace (state_of (boot fuel (e\<lparr>begin_ok := True\<rparr>) Map.empty))"
proof (cases "pin_low e 0")
  case True
  then show ?thesis
    by (simp add: boot_pin_low clear_trace prim_defs after_prelude_def setup_prelude_def)
next
  case False
  let ?e = "e\<lparr>begin_ok := True\<rparr>"
  let ?s1 = "prefs_begin e ''sensor-config'' (after_prelude e flash)"
  let ?s2 = "prefs_begin ?e ''sensor-config'' (after_prelude ?e Map.empty)"
  have b1: "boot fuel e flash = startConfigurationPortal fuel e ?s1"
    using False assms by (intro boot_unconfigured_cases) simp_all
  have b2: "boot fuel ?e Map.empty = startConfigurationPortal fuel ?e ?s2"
    using False by (intro boot_unconfigured_cases) (simp_all add: stored_def)
  have "same_effects
      (portal_loop fuel e (?s1\<lparr>trace := trace ?s1 @ portal_banner e\<rparr>))
      (portal_loop fuel ?e (?s2\<lparr>trace := trace ?s2 @ portal_banner ?e\<rparr>))"
    by (rule portal_loop_same)
       (simp_all add: prim_defs after_prelude_def setup_prelude_def portal_banner_def)
  then show ?thesis
    by (simp only: b1 b2 startConfigurationPortal_eq same_effects_trace)
qed

text \<open>
  C6 (amended). If opening the persistent config store at boot fails, \<open>setup()\<close> does
  not notice: the result of \<open>preferences.begin\<close> is discarded, nothing is reported, and
  the boot continues. Everything the device then does, its serial output included, is
  event for event what a boot does whose store opened and held no configuration: it
  never starts a join, and with the reset pin released it starts the provisioning
  portal, whatever credentials the flash holds.
\<close>

theorem store_open_failure_goes_unnoticed:
  assumes "\<not> begin_ok e"
  shows "trace (state_of (boot fuel e flash)) =
           trace (state_of (boot fuel (e\<lparr>begin_ok := True\<rparr>) Map.empty)) \<and>
         filter is_serial (trace (state_of (boot fuel e flash))) =
           filter is_serial (trace (state_of (boot fuel (e\<lparr>begin_ok := True\<rparr>) Map.empty))) \<and>
         \<not> entered_Connecting (boot fuel e flash) \<and>
         (\<not> pin_low e 0 \<longrightarrow> entered_PortalActive (boot fuel e flash))"
  using boot_store_failure_same [OF assms, of fuel flash]
        boot_unconfigured_mode [of e flash fuel] assms
  by simp

text \<open>
  C6 as stated fails: on a device that holds the credentials \<open>Home\<close>/\<open>secret\<close> and
  whose store does not open, the boot prints its usual lines, none about the store, and
  goes on to start the access point and the portal.
\<close>

theorem store_open_failure_is_silent:
  "stored flash_home ''ssid'' = ''Home'' \<and>
   trace (state_of (boot 0 env_store_fails flash_home)) =
     [SerialBegin 115200, Delay 1000, Println ''\<newline>\<newline>Iniciando dispositivo...'',
      WifiMacAddress, Print ''ID unico deste dispositivo: '', Println ''246F280A0B0C'',
      PinMode 22 ''INPUT_PULLUP'', PinMode 23 ''OUTPUT'', DigitalWrite 23 False,
      DigitalRead 22, PrefsBegin ''sensor-config'', WifiMacAddress,
      WifiSoftAP ''AGROFLOWSENSOR-ABC'',
      Println ''\<newline>--- MODO DE CONFIGURACAO VIA PORTAL WEB ---'',
      Print ''Conecte-se a rede: '', Println ''AGROFLOWSENSOR-ABC'',
      Print ''Acesse o IP: http://'', Println ''192.168.4.1'', DnsStart, ServerBegin,
      Println ''Servidor web iniciado. Aguardando configuracao...'']"
proof -
  have m: "mac env_store_fails = [0x24, 0x6F, 0x28, 0x0A, 0x0B, 0x0C]"
    by (simp add: env_store_fails_def bench_env_def)
  have n: "apName [0x24, 0x6F, 0x28, 0x0A, 0x0B, 0x0C] = ''AGROFLOWSENSOR-ABC''"
          "derive_identity [0x24, 0x6F, 0x28, 0x0A, 0x0B, 0x0C] [] = ''246F280A0B0C''"
    by code_simp+
  have b: "boot 0 env_store_fails flash_home =
      startConfigurationPortal 0 env_store_fails
        (prefs_begin env_store_fails ''sensor-config'' (after_prelude env_store_fails flash_home))"
    by (rule boot_unconfigured_cases) (simp_all add: env_store_fails_def bench_env_def)
  have "trace (state_of (boot 0 env_store_fails flash_home)) =
      setup_prelude env_store_fails @ PrefsBegin ''sensor-config'' # portal_banner env_store_fails"
    by (simp add: b startConfigurationPortal_eq prim_defs after_prelude_def)
  also have "\<dots> =
     [SerialBegin 115200, Delay 1000, Println ''\<newline>\<newline>Iniciando dispositivo...'',
      WifiMacAddress, Print ''ID unico deste dispositivo: '', Println ''246F280A0B0C'',
      PinMode 22 ''INPUT_PULLUP'', PinMode 23 ''OUTPUT'', DigitalWrite 23 False,
      DigitalRead 22, PrefsBegin ''sensor-config'', WifiMacAddress,
      WifiSoftAP ''AGROFLOWSENSOR-ABC'',
      Println ''\<newline>--- MODO DE CONFIGURACAO VIA PORTAL WEB ---'',
      Print ''Conecte-se a rede: '', Println ''AGROFLOWSENSOR-ABC'',
      Print ''Acesse o IP: http://'', Println ''192.168.4.1'', DnsStart, ServerBegin,
      Println ''Servidor web iniciado. Aguardando configuracao...'']"
    unfolding setup_prelude_def portal_banner_def m n
    by (simp add: env_store_fails_def bench_env_def RESET_PIN_1_def RESET_PIN_2_def)
  finally show ?thesis by simp
qed

text \<open>The hypothesis of C6 holds on the bench when the store does not open.\<close>

theorem store_open_failure_goes_unnoticed_witness:
  "\<not> begin_ok env_store_fails \<and> \<not> pin_low env_store_fails 0 \<and>
   trace (state_of (boot 0 env_store_fails flash_home)) =
     trace (state_of (boot 0 (env_store_fails\<lparr>begin_ok := True\<rparr>) Map.empty)) \<and>
   entered_PortalActive (boot 0 env_store_fails flash_home)"
proof -
  have h: "\<not> begin_ok env_store_fails" "\<not> pin_low env_store_fails 0"
    by (simp_all add: env_store_fails_def bench_env_def)
  show ?thesis
    using store_open_failure_goes_unnoticed [OF h(1), of 0 flash_home] h by simp
qed

end
